theory Spec2Isabelle
  imports Main "HOL-Library.AList"
begin

section \<open>JavaScript values used by the session lifecycle code\<close>

text \<open>
  Timestamps and durations are JavaScript numbers holding integers (milliseconds since
  the epoch), modelled as \<open>int\<close>. An optional number (\<open>number | undefined\<close>) is an
  \<open>int option\<close>. A thrown \<open>Error\<close> is a value of \<open>js_error\<close>; a call that may throw
  returns \<open>js_error + 'a\<close>.
\<close>

record js_error =
  name :: string
  message :: string

text \<open>Truthiness of an optional number: \<open>undefined\<close> and \<open>0\<close> are falsy.\<close>

definition truthyNum :: "int option \<Rightarrow> bool" where
  "truthyNum v = (case v of None \<Rightarrow> False | Some n \<Rightarrow> n \<noteq> 0)"

text \<open>Truthiness of an optional string: \<open>undefined\<close>, \<open>null\<close> and the empty string are falsy.\<close>

definition truthyStr :: "string option \<Rightarrow> bool" where
  "truthyStr v = (case v of None \<Rightarrow> False | Some s \<Rightarrow> s \<noteq> [])"

text \<open>\<open>String.prototype.split\<close> with a one-character separator.\<close>

fun splitOn :: "char \<Rightarrow> string \<Rightarrow> string list" where
  "splitOn c [] = [[]]"
| "splitOn c (x # xs) =
     (if x = c then [] # splitOn c xs
      else (case splitOn c xs of [] \<Rightarrow> [[x]] | w # ws \<Rightarrow> (x # w) # ws))"

text \<open>Array destructuring \<open>const [a, b] = arr\<close>: a missing element is \<open>undefined\<close>.\<close>

definition elemAt :: "'a list \<Rightarrow> nat \<Rightarrow> 'a option" where
  "elemAt xs i = (if i < length xs then Some (xs ! i) else None)"

text \<open>
  \<open>parseInt(s, 10)\<close>: leading white space is skipped, an optional sign is read, then the
  longest prefix of decimal digits; \<open>NaN\<close> (here \<open>None\<close>) when there is no digit.
\<close>

definition isWhiteSpace :: "char \<Rightarrow> bool" where
  "isWhiteSpace c = ((of_char c :: nat) \<in> {9, 10, 11, 12, 13, 32})"

definition isDigit :: "char \<Rightarrow> bool" where
  "isDigit c = (48 \<le> (of_char c :: nat) \<and> (of_char c :: nat) \<le> 57)"

definition digitsValue :: "string \<Rightarrow> nat" where
  "digitsValue ds = foldl (\<lambda>a c. 10 * a + ((of_char c :: nat) - 48)) 0 ds"

definition parseInt :: "string \<Rightarrow> int option" where
  "parseInt s =
     (let t = dropWhile isWhiteSpace s;
          neg = (t \<noteq> [] \<and> hd t = CHR ''-'');
          r = (if t \<noteq> [] \<and> (hd t = CHR ''-'' \<or> hd t = CHR ''+'') then tl t else t);
          ds = takeWhile isDigit r
      in if ds = [] then None
         else Some (if neg then - int (digitsValue ds) else int (digitsValue ds)))"

text \<open>Decimal rendering of a non-negative integer, as a template literal prints it.\<close>

function showNat :: "nat \<Rightarrow> string" where
  "showNat n =
     (if n < 10 then [char_of (48 + n)]
      else showNat (n div 10) @ [char_of (48 + n mod 10)])"
  by pat_completeness auto
termination
  by (relation "measure id") auto

declare showNat.simps [simp del]

text \<open>\<open>deviceStr || '0'\<close>: the default replaces \<open>undefined\<close> and the empty string.\<close>

definition orDefault :: "string option \<Rightarrow> string \<Rightarrow> string" where
  "orDefault v d = (if truthyStr v then the v else d)"

section \<open>The persistent keyed store\<close>

text \<open>
  The store is an external collaborator. A namespace is an association list from key to
  value, in the order \<open>Object.keys\<close> enumerates it. \<open>txLog\<close> records the label of every
  \<open>transaction\<close> call that was issued, committed or not; it is an observation of the
  calls, not store data.
\<close>

record SessionActivityMetadata =
  lastActivityAt :: int
  createdAt :: "int option"

record KeyStore =
  session :: "(string \<times> string) list"
  sessionActivity :: "(string \<times> SessionActivityMetadata) list"
  txLog :: "string list"

text \<open>
  The faults the store can show during one operation: \<open>getThrows\<close> makes \<open>keys.get\<close>
  reject, \<open>transactionThrows\<close> makes \<open>keys.transaction\<close> reject.
\<close>

record StoreFaults =
  getThrows :: bool
  transactionThrows :: bool

definition storeError :: js_error where
  "storeError = \<lparr>name = ''Error'', message = ''store failure''\<rparr>"

text \<open>\<open>keys.set\<close> on one namespace: a \<open>null\<close> value deletes the key, another value stores it.\<close>

definition applyUpdates :: "(string \<times> 'v option) list \<Rightarrow> (string \<times> 'v) list \<Rightarrow> (string \<times> 'v) list" where
  "applyUpdates ups al =
     foldl (\<lambda>acc (k, v). case v of None \<Rightarrow> AList.delete k acc | Some x \<Rightarrow> AList.update k x acc) al ups"

text \<open>
  Modelled from the spec: \<open>keys.transaction(work, label)\<close> of the Persistent Keyed Store,
  whose implementation is not among the sources, "guaranteeing all-or-nothing application
  of a batch of set calls issued inside work". A committed transaction applies \<open>work\<close>; a
  failed one leaves the data as it was. In both cases the call is recorded in \<open>txLog\<close>.
\<close>

definition transaction :: "StoreFaults \<Rightarrow> (KeyStore \<Rightarrow> KeyStore) \<Rightarrow> string \<Rightarrow> KeyStore \<Rightarrow> (js_error + unit) \<times> KeyStore" where
  "transaction faults work label st =
     (let logged = st\<lparr>txLog := txLog st @ [label]\<rparr>
      in if transactionThrows faults then (Inl storeError, logged)
         else (Inr (), work logged))"

section \<open>Session cleanup\<close>

record SessionCleanupConfig =
  enabled :: bool
  intervalMs :: int
  cleanupHour :: int
  secondaryDeviceInactiveDays :: int
  primaryDeviceInactiveDays :: int
  lidOrphanHours :: int
  cleanupOnStartup :: bool
  autoCleanCorrupted :: bool

record SessionCleanupStats =
  totalScanned :: nat
  secondaryDevicesDeleted :: nat
  primaryDevicesDeleted :: nat
  lidOrphansDeleted :: nat
  totalDeleted :: nat
  durationMs :: int
  errors :: nat

text \<open>
  \<open>hasLIDMapping\<close> is \<open>boolean | undefined\<close>: it is only set for long-lived-id records.
  \<open>createdAtMs\<close> of the source is never written nor read and is left out.
\<close>

record SessionMetadata =
  jid :: string
  isLID :: bool
  isPrimary :: bool
  lastActivityMs :: "int option"
  hasLIDMapping :: "bool option"

text \<open>The mutable variables of one cleanup manager (the timer handles are left out).\<close>

record CleanupState =
  lastCleanupAt :: int
  cleanupRunning :: bool

text \<open>
  What one run of \<open>runCleanup\<close> reads from outside the store: the answers of
  \<open>lidMapping.getPNForLID\<close> (which may throw), the result of
  \<open>sessionActivityTracker.getAllActivities()\<close> (\<open>None\<close> when the tracker is \<open>null\<close>;
  the call may throw), and the readings of \<open>Date.now()\<close>: at the start, when each record
  is classified, and at the end.
\<close>

record CleanupEnv =
  faults :: StoreFaults
  getPNForLID :: "string \<Rightarrow> js_error + string option"
  trackerActivities :: "(js_error + (string \<Rightarrow> int option)) option"
  startTime :: int
  nowAt :: "string \<Rightarrow> int"
  endTime :: int

definition getAllSessionKeys :: "StoreFaults \<Rightarrow> KeyStore \<Rightarrow> string list" where
  "getAllSessionKeys f st = (if getThrows f then [] else map fst (session st))"

definition parseSessionMetadata :: "CleanupEnv \<Rightarrow> string \<Rightarrow> SessionMetadata option" where
  "parseSessionMetadata env signalAddr =
     (let parts = splitOn CHR ''.'' signalAddr;
          userWithDomain = elemAt parts 0;
          deviceStr = elemAt parts 1
      in if \<not> truthyStr userWithDomain then None
         else
           let parts2 = splitOn CHR ''_'' (the userWithDomain);
               user = elemAt parts2 0;
               domainStr = elemAt parts2 1
           in if \<not> truthyStr user then None
              else
                let device = parseInt (orDefault deviceStr ''0'');
                    domain = parseInt (orDefault domainStr ''0'');
                    isLID' = (domain = Some 2 \<or> domain = Some 6);
                    isPrimary' = (device = Some 0);
                    jid' = (if isLID' then the user @ ''@lid''
                            else the user
                                 @ (case device of
                                      Some d \<Rightarrow> if d > 0 then '':'' @ showNat (nat d) else []
                                    | None \<Rightarrow> [])
                                 @ ''@s.whatsapp.net'')
                in if isLID' then
                     (case getPNForLID env jid' of
                        Inl e \<Rightarrow> None
                      | Inr pn \<Rightarrow>
                          Some \<lparr>jid = jid', isLID = isLID', isPrimary = isPrimary',
                                lastActivityMs = None, hasLIDMapping = Some (truthyStr pn)\<rparr>)
                   else
                     Some \<lparr>jid = jid', isLID = isLID', isPrimary = isPrimary',
                           lastActivityMs = None, hasLIDMapping = None\<rparr>)"

text \<open>
  The reason strings of the source are kept as constructors; the number they print is the
  argument (\<open>Math.floor\<close> of the inactive duration in hours or days).
\<close>

datatype CleanupReason =
    OrphanInactive int
  | OrphanNoActivity
  | OrphanNotInactiveLongEnough
  | SecondaryInactive int
  | SecondaryActive
  | PrimaryInactive int
  | PrimaryActive
  | NoActivityTrackedYet

definition shouldCleanupSession :: "SessionCleanupConfig \<Rightarrow> SessionMetadata \<Rightarrow> int \<Rightarrow> bool \<times> CleanupReason" where
  "shouldCleanupSession config metadata now =
     (if isLID metadata \<and> hasLIDMapping metadata = Some False then
        (let thresholdMs = lidOrphanHours config * 60 * 60 * 1000
         in if truthyNum (lastActivityMs metadata) then
              (let inactiveDuration = now - the (lastActivityMs metadata)
               in if inactiveDuration > thresholdMs
                  then (True, OrphanInactive (inactiveDuration div 3600000))
                  else (False, OrphanNotInactiveLongEnough))
            else (True, OrphanNoActivity))
      else if \<not> isPrimary metadata \<and> truthyNum (lastActivityMs metadata) then
        (let thresholdMs = secondaryDeviceInactiveDays config * 24 * 60 * 60 * 1000;
             inactiveDuration = now - the (lastActivityMs metadata)
         in if inactiveDuration > thresholdMs
            then (True, SecondaryInactive (inactiveDuration div 86400000))
            else (False, SecondaryActive))
      else if isPrimary metadata \<and> truthyNum (lastActivityMs metadata) then
        (let thresholdMs = primaryDeviceInactiveDays config * 24 * 60 * 60 * 1000;
             inactiveDuration = now - the (lastActivityMs metadata)
         in if inactiveDuration > thresholdMs
            then (True, PrimaryInactive (inactiveDuration div 86400000))
            else (False, PrimaryActive))
      else (False, NoActivityTrackedYet))"

text \<open>
  The statistics update for a record marked for deletion. \<open>!metadata.hasLIDMapping\<close> holds
  for \<open>false\<close> and for \<open>undefined\<close>.
\<close>

definition countDeletion :: "SessionMetadata \<Rightarrow> SessionCleanupStats \<Rightarrow> SessionCleanupStats" where
  "countDeletion metadata stats =
     (if isLID metadata \<and> hasLIDMapping metadata \<noteq> Some True
      then stats\<lparr>lidOrphansDeleted := lidOrphansDeleted stats + 1\<rparr>
      else if \<not> isPrimary metadata
      then stats\<lparr>secondaryDevicesDeleted := secondaryDevicesDeleted stats + 1\<rparr>
      else stats\<lparr>primaryDevicesDeleted := primaryDevicesDeleted stats + 1\<rparr>)"

text \<open>
  One iteration of the loop over the session keys. The accumulator is the pair of
  \<open>stats\<close> and \<open>sessionsToDelete\<close>. \<open>parseSessionMetadata\<close> catches its own exceptions and
  nothing else in the body throws, so the inner \<open>catch\<close> has no branch here.
  \<open>deletionReasons\<close> is only logged and is left out.
\<close>

definition processSession :: "SessionCleanupConfig \<Rightarrow> CleanupEnv \<Rightarrow> (string \<Rightarrow> int option) \<Rightarrow> SessionCleanupStats \<times> string list \<Rightarrow> string \<Rightarrow> SessionCleanupStats \<times> string list" where
  "processSession config env activityMap acc signalAddr =
     (case parseSessionMetadata env signalAddr of
        None \<Rightarrow> ((fst acc)\<lparr>errors := errors (fst acc) + 1\<rparr>, snd acc)
      | Some parsed \<Rightarrow>
          (let metadata = parsed\<lparr>lastActivityMs := activityMap (jid parsed)\<rparr>
           in if fst (shouldCleanupSession config metadata (nowAt env signalAddr))
              then (countDeletion metadata (fst acc), snd acc @ [signalAddr])
              else acc))"

definition scanSessions :: "SessionCleanupConfig \<Rightarrow> CleanupEnv \<Rightarrow> (string \<Rightarrow> int option) \<Rightarrow> SessionCleanupStats \<Rightarrow> string list \<Rightarrow> SessionCleanupStats \<times> string list" where
  "scanSessions config env activityMap stats sessionKeys =
     foldl (processSession config env activityMap) (stats, []) sessionKeys"

text \<open>
  \<open>sessionActivityTracker ? await sessionActivityTracker.getAllActivities() : new Map()\<close>
\<close>

definition loadActivities :: "CleanupEnv \<Rightarrow> js_error + (string \<Rightarrow> int option)" where
  "loadActivities env = (case trackerActivities env of None \<Rightarrow> Inr (\<lambda>k. None) | Some r \<Rightarrow> r)"

definition emptyStats :: SessionCleanupStats where
  "emptyStats = \<lparr>totalScanned = 0, secondaryDevicesDeleted = 0, primaryDevicesDeleted = 0,
                  lidOrphansDeleted = 0, totalDeleted = 0, durationMs = 0, errors = 0\<rparr>"

text \<open>
  \<open>runCleanup\<close> returns the statistics; the model also returns the manager's variables and
  the store after the run. The \<open>finally\<close> block resets \<open>cleanupRunning\<close> on every path
  that entered the \<open>try\<close>.
\<close>

definition runCleanup :: "SessionCleanupConfig \<Rightarrow> CleanupEnv \<Rightarrow> CleanupState \<Rightarrow> KeyStore \<Rightarrow> SessionCleanupStats \<times> CleanupState \<times> KeyStore" where
  "runCleanup config env cs st =
     (if \<not> enabled config then (emptyStats, cs, st)
      else if cleanupRunning cs then (emptyStats, cs, st)
      else
        let sessionKeys = getAllSessionKeys (faults env) st;
            stats1 = emptyStats\<lparr>totalScanned := length sessionKeys\<rparr>
        in case loadActivities env of
             Inl e \<Rightarrow>
               (stats1\<lparr>errors := errors stats1 + 1, durationMs := endTime env - startTime env\<rparr>,
                cs\<lparr>cleanupRunning := False\<rparr>, st)
           | Inr activityMap \<Rightarrow>
               (let scanned = scanSessions config env activityMap stats1 sessionKeys;
                    stats2 = fst scanned;
                    sessionsToDelete = snd scanned;
                    cs' = cs\<lparr>lastCleanupAt := endTime env, cleanupRunning := False\<rparr>
                in if length sessionsToDelete > 0 then
                     (let sessionUpdates = map (\<lambda>addr. (addr, None)) sessionsToDelete;
                          tx = transaction (faults env)
                                 (\<lambda>s. s\<lparr>session := applyUpdates sessionUpdates (session s)\<rparr>)
                                 ''session-cleanup'' st
                      in case fst tx of
                           Inr u \<Rightarrow>
                             (stats2\<lparr>totalDeleted := length sessionsToDelete,
                                     durationMs := endTime env - startTime env\<rparr>, cs', snd tx)
                         | Inl e \<Rightarrow>
                             (stats2\<lparr>errors := errors stats2 + 1,
                                     durationMs := endTime env - startTime env\<rparr>, cs', snd tx))
                   else (stats2\<lparr>durationMs := endTime env - startTime env\<rparr>, cs', st)))"

text \<open>
  The condition under which the loop marks a key: the key parses, and the rule applied to
  its metadata, completed with the tracked activity of its JID, says \<open>cleanup\<close>.
\<close>

definition marksForDeletion :: "SessionCleanupConfig \<Rightarrow> CleanupEnv \<Rightarrow> (string \<Rightarrow> int option) \<Rightarrow> string \<Rightarrow> bool" where
  "marksForDeletion config env activityMap signalAddr =
     (case parseSessionMetadata env signalAddr of
        None \<Rightarrow> False
      | Some parsed \<Rightarrow>
          fst (shouldCleanupSession config (parsed\<lparr>lastActivityMs := activityMap (jid parsed)\<rparr>)
                 (nowAt env signalAddr)))"

text \<open>The configuration used by the cleanup tests (\<open>session-cleanup.test.ts\<close>).\<close>

definition testConfig :: SessionCleanupConfig where
  "testConfig = \<lparr>enabled = True, intervalMs = 86400000, cleanupHour = 3,
                  secondaryDeviceInactiveDays = 15, primaryDeviceInactiveDays = 30,
                  lidOrphanHours = 24, cleanupOnStartup = False, autoCleanCorrupted = False\<rparr>"

text \<open>
  The mocks of the cleanup tests: \<open>getPNForLID\<close> resolves to the same value for every
  JID, \<open>getAllActivities\<close> resolves to a fixed map, and \<open>Date.now()\<close> is fixed at
  \<open>1700000000000\<close>.
\<close>

definition cleanupTestEnv :: "string option \<Rightarrow> (string \<times> int) list \<Rightarrow> bool \<Rightarrow> CleanupEnv" where
  "cleanupTestEnv pn activities txFails =
     \<lparr>faults = \<lparr>getThrows = False, transactionThrows = txFails\<rparr>,
      getPNForLID = (\<lambda>j. Inr pn),
      trackerActivities = Some (Inr (map_of activities)),
      startTime = 1700000000000, nowAt = (\<lambda>k. 1700000000000), endTime = 1700000000000\<rparr>"

definition testState :: CleanupState where
  "testState = \<lparr>lastCleanupAt = 0, cleanupRunning = False\<rparr>"

definition testStore :: KeyStore where
  "testStore = \<lparr>session = [(''123456789_2.0'', ''session-data'')], sessionActivity = [], txLog = []\<rparr>"

definition lidPrimaryMetadata :: "int option \<Rightarrow> bool \<Rightarrow> SessionMetadata" where
  "lidPrimaryMetadata activity mapped =
     \<lparr>jid = ''123456789@lid'', isLID = True, isPrimary = True,
      lastActivityMs = activity, hasLIDMapping = Some mapped\<rparr>"

text \<open>The sum of the three per-category counters.\<close>

definition categoryTotal :: "SessionCleanupStats \<Rightarrow> nat" where
  "categoryTotal s = lidOrphansDeleted s + secondaryDevicesDeleted s + primaryDevicesDeleted s"

section \<open>Session activity tracker\<close>

text \<open>
  The field \<open>enabled\<close> of the tracker's configuration is named \<open>activityEnabled\<close> here,
  as the cleanup configuration already has a field \<open>enabled\<close>.
\<close>

record SessionActivityConfig =
  flushIntervalMs :: int
  activityEnabled :: bool

record TrackerStats =
  totalUpdates :: nat
  totalFlushes :: nat
  lastFlushAt :: int
  lastFlushDuration :: int
  cacheSize :: nat

text \<open>
  The variables of one tracker. \<open>activityCache\<close> is a JavaScript \<open>Map\<close>: an association
  list in insertion order, in which \<open>set\<close> on a present key replaces the value in place.
  The flush timer handle is left out; the object \<open>stats\<close> is the field \<open>trackerStats\<close>.
\<close>

record Tracker =
  activityCache :: "(string \<times> int) list"
  isDirty :: bool
  trackerStats :: TrackerStats

definition newTracker :: Tracker where
  "newTracker = \<lparr>activityCache = [], isDirty = False,
                  trackerStats = \<lparr>totalUpdates = 0, totalFlushes = 0, lastFlushAt = 0,
                           lastFlushDuration = 0, cacheSize = 0\<rparr>\<rparr>"

definition recordActivity :: "SessionActivityConfig \<Rightarrow> int \<Rightarrow> string \<Rightarrow> Tracker \<Rightarrow> Tracker" where
  "recordActivity config now jid' tr =
     (if \<not> activityEnabled config then tr
      else
        let cache = AList.update jid' now (activityCache tr)
        in tr\<lparr>activityCache := cache, isDirty := True,
              trackerStats := (trackerStats tr)\<lparr>totalUpdates := totalUpdates (trackerStats tr) + 1,
                                  cacheSize := length cache\<rparr>\<rparr>)"

definition activityKey :: "string \<Rightarrow> string" where
  "activityKey jid' = ''session-activity:'' @ jid'"

definition getLastActivity :: "SessionActivityConfig \<Rightarrow> StoreFaults \<Rightarrow> KeyStore \<Rightarrow> string \<Rightarrow> Tracker \<Rightarrow> int option" where
  "getLastActivity config f st jid' tr =
     (if \<not> activityEnabled config then None
      else
        let cached = map_of (activityCache tr) jid'
        in if truthyNum cached then cached
           else if getThrows f then None
           else (case map_of (sessionActivity st) (activityKey jid') of
                   None \<Rightarrow> None
                 | Some metadata \<Rightarrow> Some (lastActivityAt metadata)))"

text \<open>\<open>String.prototype.startsWith\<close>.\<close>

fun startsWith :: "string \<Rightarrow> string \<Rightarrow> bool" where
  "startsWith s [] = True"
| "startsWith [] (p # ps) = False"
| "startsWith (c # cs) (p # ps) = (c = p \<and> startsWith cs ps)"

text \<open>
  The result \<open>Map\<close> is built from the persisted records, then the in-memory entries are
  set over it. When \<open>keys.get\<close> throws, the \<open>catch\<close> returns the map as built so far,
  which is empty. \<open>key.replace('session-activity:', '')\<close> on a key that starts with the
  prefix removes the prefix.
\<close>

definition getAllActivities :: "SessionActivityConfig \<Rightarrow> StoreFaults \<Rightarrow> KeyStore \<Rightarrow> Tracker \<Rightarrow> (string \<times> int) list" where
  "getAllActivities config f st tr =
     (if \<not> activityEnabled config then []
      else if getThrows f then []
      else
        let fromDisk =
              foldl (\<lambda>result (key, metadata).
                       if startsWith key ''session-activity:''
                          \<and> truthyNum (Some (lastActivityAt metadata))
                       then AList.update (drop (length ''session-activity:'') key)
                              (lastActivityAt metadata) result
                       else result)
                [] (sessionActivity st)
        in foldl (\<lambda>result (jid', timestamp). AList.update jid' timestamp result)
             fromDisk (activityCache tr))"

text \<open>
  \<open>flush\<close> is asynchronous: it builds the update object from the buffer, awaits
  \<open>keys.transaction\<close>, and only then resets \<open>isDirty\<close> and clears the buffer (or, in the
  \<open>catch\<close>, leaves it). \<open>recordActivity\<close> is synchronous and can run while the
  transaction is awaited: \<open>during\<close> lists those calls, each with its JID and its reading
  of \<open>Date.now()\<close>, in the order they happen.
\<close>

definition recordDuring :: "SessionActivityConfig \<Rightarrow> (string \<times> int) list \<Rightarrow> Tracker \<Rightarrow> Tracker" where
  "recordDuring config during tr =
     foldl (\<lambda>t (jid', now). recordActivity config now jid' t) tr during"

text \<open>
  \<open>flush\<close> reads \<open>Date.now()\<close> when it starts and after the transaction; both readings are
  arguments. The early return happens before any \<open>await\<close>. The model returns the tracker
  and the store after the call.
\<close>

definition flush :: "SessionActivityConfig \<Rightarrow> StoreFaults \<Rightarrow> int \<Rightarrow> int \<Rightarrow> (string \<times> int) list \<Rightarrow> Tracker \<times> KeyStore \<Rightarrow> Tracker \<times> KeyStore" where
  "flush config f startTime' endTime' during state =
     (let tr = fst state; st = snd state
      in if \<not> activityEnabled config \<or> \<not> isDirty tr \<or> length (activityCache tr) = 0 then (tr, st)
         else
           let updates = map (\<lambda>(jid', timestamp).
                                (activityKey jid',
                                 Some \<lparr>lastActivityAt = timestamp, createdAt = Some timestamp\<rparr>))
                           (activityCache tr);
               tx = transaction f
                      (\<lambda>s. s\<lparr>sessionActivity := applyUpdates updates (sessionActivity s)\<rparr>)
                      ''session-activity-flush'' st;
               awaited = recordDuring config during tr
           in case fst tx of
                Inr u \<Rightarrow>
                  (awaited\<lparr>isDirty := False,
                      trackerStats := (trackerStats awaited)
                                        \<lparr>totalFlushes := totalFlushes (trackerStats awaited) + 1,
                                         lastFlushAt := endTime',
                                         lastFlushDuration := endTime' - startTime',
                                         cacheSize := 0\<rparr>,
                      activityCache := []\<rparr>, snd tx)
              | Inl e \<Rightarrow> (awaited, snd tx))"

text \<open>
  What holds of the tracker's variables in every state the operations can reach from
  \<open>newTracker\<close>: the keys of the \<open>Map\<close> are distinct, and a non-empty buffer belongs to
  an enabled tracker whose dirty flag is set.
\<close>

definition trackerInv :: "SessionActivityConfig \<Rightarrow> Tracker \<Rightarrow> bool" where
  "trackerInv config tr =
     (distinct (map fst (activityCache tr)) \<and>
      (activityCache tr = [] \<or> (activityEnabled config \<and> isDirty tr)))"

text \<open>The tracker configurations and the persisted record of the tracker tests.\<close>

definition enabledTracking :: SessionActivityConfig where
  "enabledTracking = \<lparr>flushIntervalMs = 60000, activityEnabled = True\<rparr>"

definition disabledTracking :: SessionActivityConfig where
  "disabledTracking = \<lparr>flushIntervalMs = 60000, activityEnabled = False\<rparr>"

definition activityStore :: KeyStore where
  "activityStore =
     \<lparr>session = [],
      sessionActivity = [(''session-activity:5511999999999@s.whatsapp.net'',
                          \<lparr>lastActivityAt = 1234567890, createdAt = Some 1234567890\<rparr>)],
      txLog = []\<rparr>"

definition noFaults :: StoreFaults where
  "noFaults = \<lparr>getThrows = False, transactionThrows = False\<rparr>"

definition failingTransaction :: StoreFaults where
  "failingTransaction = \<lparr>getThrows = False, transactionThrows = True\<rparr>"

section \<open>Decryption pipeline\<close>

text \<open>\<open>String.prototype.includes\<close> and \<open>String.prototype.endsWith\<close>.\<close>

fun strIncludes :: "string \<Rightarrow> string \<Rightarrow> bool" where
  "strIncludes [] p = (p = [])"
| "strIncludes (c # cs) p = (startsWith (c # cs) p \<or> strIncludes cs p)"

definition endsWith :: "string \<Rightarrow> string \<Rightarrow> bool" where
  "endsWith s p = startsWith (rev s) (rev p)"

definition MISSING_KEYS_ERROR_TEXT :: string where
  "MISSING_KEYS_ERROR_TEXT = ''Key used already or never filled''"

definition NO_MESSAGE_FOUND_ERROR_TEXT :: string where
  "NO_MESSAGE_FOUND_ERROR_TEXT = ''Message absent from node''"

record RetryConfig =
  maxRetries :: nat
  baseDelayMs :: nat
  sessionRecordErrors :: "string list"
  corruptedSessionErrors :: "string list"

definition DECRYPTION_RETRY_CONFIG :: RetryConfig where
  "DECRYPTION_RETRY_CONFIG =
     \<lparr>maxRetries = 3, baseDelayMs = 100,
      sessionRecordErrors = [''No session record'', ''SessionError: No session record''],
      corruptedSessionErrors = [''Bad MAC'', ''MessageCounterError'', MISSING_KEYS_ERROR_TEXT]\<rparr>"

text \<open>
  The options record of the retry helper. \<open>jitter\<close> (0.2), \<open>collectMetrics\<close> and
  \<open>operationName\<close> only shape the delays and the metrics and are left out.
\<close>

record RetryOptions =
  maxAttempts :: nat
  baseDelay :: nat
  maxDelay :: nat
  backoffStrategy :: string
  backoffMultiplier :: nat
  shouldRetry :: "js_error \<Rightarrow> nat \<Rightarrow> bool"

definition DECRYPTION_RETRY_OPTIONS :: RetryOptions where
  "DECRYPTION_RETRY_OPTIONS =
     \<lparr>maxAttempts = 3, baseDelay = 200, maxDelay = 2000,
      backoffStrategy = ''exponential'', backoffMultiplier = 2,
      shouldRetry = (\<lambda>error attempt.
        let errorMsg = message error
        in if list_ex (\<lambda>err. strIncludes errorMsg err) (sessionRecordErrors DECRYPTION_RETRY_CONFIG)
           then attempt < 3
           else if list_ex (\<lambda>err. strIncludes errorMsg err) (corruptedSessionErrors DECRYPTION_RETRY_CONFIG)
           then False
           else attempt < 2)\<rparr>"

text \<open>
  \<open>error?.message || error?.toString() || ''\<close>: for an \<open>Error\<close> whose message is empty,
  \<open>toString()\<close> is its name.
\<close>

definition errorMessageOf :: "js_error \<Rightarrow> string" where
  "errorMessageOf error = (if message error \<noteq> [] then message error else name error)"

definition isSessionRecordError :: "js_error \<Rightarrow> bool" where
  "isSessionRecordError error =
     list_ex (\<lambda>errorPattern. strIncludes (errorMessageOf error) errorPattern)
       (sessionRecordErrors DECRYPTION_RETRY_CONFIG)"

definition isCorruptedSessionError :: "js_error \<Rightarrow> bool" where
  "isCorruptedSessionError error =
     list_ex (\<lambda>errorPattern. strIncludes (errorMessageOf error) errorPattern)
       (corruptedSessionErrors DECRYPTION_RETRY_CONFIG)"

text \<open>
  What \<open>retry\<close> throws: the error of the operation itself, or a \<open>RetryExhaustedError\<close>
  carrying the original error and the number of attempts.
\<close>

datatype thrown = Thrown js_error | RetryExhaustedError js_error nat

fun originalErrorOf :: "thrown \<Rightarrow> js_error" where
  "originalErrorOf (Thrown e) = e"
| "originalErrorOf (RetryExhaustedError e n) = e"

text \<open>
  Modelled from the spec: \<open>retry\<close> of \<open>./retry-utils\<close>, which is not among the sources.
  The spec has failures "retried up to 3 attempts with backoff"; the options give the
  ceiling \<open>maxAttempts\<close> and the predicate \<open>shouldRetry(error, attempt)\<close>. The operation
  is called for attempt 1, 2, ... (\<open>remaining\<close> counts the attempts still allowed after
  the current one); after a failure at the last allowed attempt a
  \<open>RetryExhaustedError\<close> is thrown, after a failure that \<open>shouldRetry\<close> refuses the error
  itself is rethrown, otherwise the next attempt follows (after a delay, which is not
  modelled). \<open>fn k\<close> is the outcome of the operation at its \<open>k\<close>-th call. The result comes
  with the number of calls made.
\<close>

fun retryLoop :: "RetryOptions \<Rightarrow> (nat \<Rightarrow> js_error + 'a) \<Rightarrow> nat \<Rightarrow> nat \<Rightarrow> (thrown + 'a) \<times> nat" where
  "retryLoop opts fn attempt 0 =
     (case fn attempt of
        Inr v \<Rightarrow> (Inr v, attempt)
      | Inl e \<Rightarrow> (Inl (RetryExhaustedError e attempt), attempt))"
| "retryLoop opts fn attempt (Suc remaining) =
     (case fn attempt of
        Inr v \<Rightarrow> (Inr v, attempt)
      | Inl e \<Rightarrow>
          if shouldRetry opts e attempt then retryLoop opts fn (Suc attempt) remaining
          else (Inl (Thrown e), attempt))"

definition retry :: "(nat \<Rightarrow> js_error + 'a) \<Rightarrow> RetryOptions \<Rightarrow> (thrown + 'a) \<times> nat" where
  "retry fn opts = retryLoop opts fn 1 (maxAttempts opts - 1)"

text \<open>
  The part of \<open>jidDecode\<close>'s result that the pipeline reads. \<open>jidDecode\<close> itself
  (\<open>../WABinary\<close>) is not among the sources and is a parameter.
\<close>

record FullJid =
  user :: string
  device :: "int option"

text \<open>
  The reduced \<open>WAMessage\<close> under construction: \<open>key.isViewOnce\<close>, \<open>message\<close> (here
  \<open>msgContent\<close>) and the two stub fields. \<open>verifiedBizName\<close> and \<open>retryCount\<close> do not
  interact with decryption and are left out.
\<close>

datatype StubType = CIPHERTEXT

record 'm FullMessage =
  isViewOnce :: bool
  msgContent :: "'m option"
  messageStubType :: "StubType option"
  messageStubParameters :: "string list"

text \<open>
  A child of the stanza: its tag, \<open>attrs.type\<close>, and its content when that is a
  \<open>Uint8Array\<close> (\<open>None\<close> otherwise).
\<close>

record BinaryNode =
  tag :: string
  attrType :: "string option"
  content :: "string option"

text \<open>
  The collaborators of one \<open>decrypt()\<close> run. The two cipher operations of the repository
  answer per call number; \<open>decodeMessage\<close> stands for \<open>proto.Message.decode\<close> (after
  \<open>unpadRandomMax16\<close> when the flag is set) followed by the unwrapping of
  \<open>deviceSentMessage\<close>; \<open>assignMessage\<close> is \<open>Object.assign\<close> on two decoded messages.
  \<open>processSenderKeyDistributionMessage\<close>, whose errors are caught and logged, is left out.
\<close>

record 'm DecryptEnv =
  decryptMessage :: "string \<Rightarrow> string \<Rightarrow> string \<Rightarrow> nat \<Rightarrow> js_error + string"
  decryptGroupMessage :: "string \<Rightarrow> string \<Rightarrow> string \<Rightarrow> nat \<Rightarrow> js_error + string"
  decodeMessage :: "bool \<Rightarrow> string \<Rightarrow> js_error + 'm"
  assignMessage :: "'m \<Rightarrow> 'm \<Rightarrow> 'm"
  jidDecode :: "string \<Rightarrow> FullJid option"
  deleteSessionThrows :: bool

text \<open>
  The state of one run: the message, the counter \<open>decryptables\<close>, and two observations
  of the calls made to the repository: the number of cipher calls and the argument of every
  \<open>deleteSession\<close> call.
\<close>

record 'm DecryptState =
  fullMessage :: "'m FullMessage"
  decryptables :: nat
  cipherCalls :: nat
  deleteSessionCalls :: "string list list"

text \<open>
  \<open>cleanupCorruptedSession\<close>: the JIDs handed to \<open>repository.deleteSession\<close> are the
  primary device, the devices 1 to 5, and the device of the JID itself when it is above
  5. The result is the number of JIDs, or the error of \<open>deleteSession\<close>.
\<close>

definition corruptedSessionDomain :: "string \<Rightarrow> string" where
  "corruptedSessionDomain jid' =
     (let isLID' = (endsWith jid' ''@lid'' \<or> endsWith jid' ''@hosted.lid'');
          isHosted = strIncludes jid' ''@hosted''
      in if isLID' then (if isHosted then ''hosted.lid'' else ''lid'')
         else (if isHosted then ''hosted'' else ''s.whatsapp.net''))"

definition cleanupCorruptedSession :: "'m DecryptEnv \<Rightarrow> string \<Rightarrow> string list list \<Rightarrow> (js_error + nat) \<times> string list list" where
  "cleanupCorruptedSession env jid' calls =
     (case jidDecode env jid' of
        None \<Rightarrow> (Inr 0, calls)
      | Some decoded \<Rightarrow>
          if user decoded = [] then (Inr 0, calls)
          else
            let domain = corruptedSessionDomain jid';
                jidsToDelete =
                  [user decoded @ ''@'' @ domain]
                  @ map (\<lambda>i. user decoded @ '':'' @ showNat i @ ''@'' @ domain) [1, 2, 3, 4, 5]
                  @ (case device decoded of
                       None \<Rightarrow> []
                     | Some d \<Rightarrow>
                         if d > 5 then [user decoded @ '':'' @ showNat (nat d) @ ''@'' @ domain]
                         else [])
            in if deleteSessionThrows env then (Inl storeError, calls @ [jidsToDelete])
               else (Inr (length jidsToDelete), calls @ [jidsToDelete]))"

text \<open>
  The cipher call that \<open>retry\<close> wraps for an \<open>enc\<close> child: \<open>decryptGroupMessage\<close> for
  \<open>skmsg\<close>, \<open>decryptMessage\<close> on the decryption JID for \<open>pkmsg\<close> and \<open>msg\<close>.
\<close>

definition cipherCall :: "'m DecryptEnv \<Rightarrow> string \<Rightarrow> string \<Rightarrow> string \<Rightarrow> string \<Rightarrow> string \<Rightarrow> nat \<Rightarrow> js_error + string" where
  "cipherCall env author sender decryptionJid e2eType bytes =
     (if e2eType = ''skmsg'' then decryptGroupMessage env sender author bytes
      else decryptMessage env decryptionJid e2eType bytes)"

text \<open>
  The \<open>switch\<close> on the e2e type: the outcome of the (retried) cipher call and the number
  of cipher calls made. \<open>plaintext\<close> needs no cipher; any other type throws.
\<close>

definition decryptPayload :: "'m DecryptEnv \<Rightarrow> string \<Rightarrow> string \<Rightarrow> string \<Rightarrow> string option \<Rightarrow> string \<Rightarrow> (thrown + string) \<times> nat" where
  "decryptPayload env author sender decryptionJid e2eType bytes =
     (if e2eType = Some ''skmsg'' \<or> e2eType = Some ''pkmsg'' \<or> e2eType = Some ''msg''
      then retry (cipherCall env author sender decryptionJid (the e2eType) bytes)
             DECRYPTION_RETRY_OPTIONS
      else if e2eType = Some ''plaintext'' then (Inr bytes, 0)
      else (Inl (Thrown \<lparr>name = ''Error'',
                          message = ''Unknown e2e type: ''
                                    @ (case e2eType of None \<Rightarrow> ''undefined'' | Some t \<Rightarrow> t)\<rparr>), 0))"

text \<open>
  The \<open>catch\<close> block: a corrupted session triggers the cleanup when \<open>autoCleanCorrupted\<close>
  is set (an error of the cleanup is caught and logged); every error turns the message
  into a stub whose parameter is the message of the original error.
\<close>

definition handleDecryptError :: "'m DecryptEnv \<Rightarrow> bool \<Rightarrow> string \<Rightarrow> thrown \<Rightarrow> 'm DecryptState \<Rightarrow> 'm DecryptState" where
  "handleDecryptError env autoClean decryptionJid err s =
     (let originalError = originalErrorOf err;
          isCorrupted = isCorruptedSessionError originalError;
          calls = (if isCorrupted \<and> autoClean
                   then snd (cleanupCorruptedSession env decryptionJid (deleteSessionCalls s))
                   else deleteSessionCalls s)
      in s\<lparr>deleteSessionCalls := calls,
            fullMessage := (fullMessage s)\<lparr>messageStubType := Some CIPHERTEXT,
                                            messageStubParameters := [message originalError]\<rparr>\<rparr>)"

text \<open>
  One iteration of the loop over \<open>stanza.content\<close>. The child comes with the decryption
  JID that \<open>getDecryptionJid\<close> resolved for it. \<open>storeMappingFromEnvelope\<close>, which runs
  before the \<open>try\<close> and catches its own errors, acts on the mapping store only and is
  left out.
\<close>

definition decryptNode :: "'m DecryptEnv \<Rightarrow> bool \<Rightarrow> string \<Rightarrow> string \<Rightarrow> 'm DecryptState \<Rightarrow> BinaryNode \<times> string \<Rightarrow> 'm DecryptState" where
  "decryptNode env autoClean author sender s0 child =
     (let node = fst child; decryptionJid = snd child;
          s1 = (if tag node = ''unavailable'' \<and> attrType node = Some ''view_once''
                then s0\<lparr>fullMessage := (fullMessage s0)\<lparr>isViewOnce := True\<rparr>\<rparr> else s0)
      in if tag node \<noteq> ''enc'' \<and> tag node \<noteq> ''plaintext'' then s1
         else case content node of
           None \<Rightarrow> s1
         | Some bytes \<Rightarrow>
             let s2 = s1\<lparr>decryptables := decryptables s1 + 1\<rparr>;
                 e2eType = (if tag node = ''plaintext'' then Some ''plaintext'' else attrType node);
                 attempt = decryptPayload env author sender decryptionJid e2eType bytes;
                 s3 = s2\<lparr>cipherCalls := cipherCalls s2 + snd attempt\<rparr>
             in case fst attempt of
                  Inl err \<Rightarrow> handleDecryptError env autoClean decryptionJid err s3
                | Inr msgBuffer \<Rightarrow>
                    (case decodeMessage env (e2eType \<noteq> Some ''plaintext'') msgBuffer of
                       Inl e \<Rightarrow> handleDecryptError env autoClean decryptionJid (Thrown e) s3
                     | Inr msg \<Rightarrow>
                         s3\<lparr>fullMessage := (fullMessage s3)
                              \<lparr>msgContent := (case msgContent (fullMessage s3) of
                                                None \<Rightarrow> Some msg
                                              | Some m \<Rightarrow> Some (assignMessage env m msg))\<rparr>\<rparr>))"

text \<open>After the loop: a stanza with nothing to decrypt becomes a stub as well.\<close>

definition finishDecrypt :: "'m DecryptState \<Rightarrow> 'm DecryptState" where
  "finishDecrypt s =
     (if decryptables s = 0 \<and> \<not> isViewOnce (fullMessage s)
      then s\<lparr>fullMessage := (fullMessage s)\<lparr>messageStubType := Some CIPHERTEXT,
                                            messageStubParameters := [NO_MESSAGE_FOUND_ERROR_TEXT]\<rparr>\<rparr>
      else s)"

definition decrypt :: "'m DecryptEnv \<Rightarrow> bool \<Rightarrow> string \<Rightarrow> string \<Rightarrow> (BinaryNode \<times> string) list \<Rightarrow> 'm DecryptState \<Rightarrow> 'm DecryptState" where
  "decrypt env autoClean author sender children s =
     finishDecrypt (foldl (decryptNode env autoClean author sender) s children)"

text \<open>The JIDs that the cleanup of a corrupted session names for a user and a domain.\<close>

definition corruptedSessionJids :: "string \<Rightarrow> int option \<Rightarrow> string \<Rightarrow> string list" where
  "corruptedSessionJids u d domain =
     [u @ ''@'' @ domain, u @ '':1@'' @ domain, u @ '':2@'' @ domain, u @ '':3@'' @ domain,
      u @ '':4@'' @ domain, u @ '':5@'' @ domain]
     @ (case d of None \<Rightarrow> [] | Some n \<Rightarrow> if n > 5 then [u @ '':'' @ showNat (nat n) @ ''@'' @ domain] else [])"

text \<open>
  A run used as example: a pairwise message from \<open>5511999999999@s.whatsapp.net\<close> whose
  cipher call fails with the error given.
\<close>

definition failingEnv :: "js_error \<Rightarrow> string DecryptEnv" where
  "failingEnv e =
     \<lparr>decryptMessage = (\<lambda>j t c k. Inl e), decryptGroupMessage = (\<lambda>g a c k. Inl e),
      decodeMessage = (\<lambda>unpad buf. Inr buf), assignMessage = (\<lambda>a b. b),
      jidDecode = (\<lambda>j. if j = ''5511999999999@s.whatsapp.net''
                        then Some \<lparr>user = ''5511999999999'', device = None\<rparr> else None),
      deleteSessionThrows = False\<rparr>"

text \<open>A cipher operation that fails with the same error at every call.\<close>

definition alwaysFailing :: "js_error \<Rightarrow> nat \<Rightarrow> js_error + string" where
  "alwaysFailing e k = Inl e"

definition badMacError :: js_error where
  "badMacError = \<lparr>name = ''Error'', message = ''Bad MAC''\<rparr>"

definition noSessionError :: js_error where
  "noSessionError = \<lparr>name = ''SessionError'', message = ''No session record''\<rparr>"

definition overlappingError :: js_error where
  "overlappingError = \<lparr>name = ''Error'', message = ''Bad MAC after No session record''\<rparr>"

definition encNode :: BinaryNode where
  "encNode = \<lparr>tag = ''enc'', attrType = Some ''msg'', content = Some ''ciphertext''\<rparr>"

definition initialDecryptState :: "string DecryptState" where
  "initialDecryptState =
     \<lparr>fullMessage = \<lparr>isViewOnce = False, msgContent = None, messageStubType = None,
                     messageStubParameters = []\<rparr>,
      decryptables = 0, cipherCalls = 0, deleteSessionCalls = []\<rparr>"

section \<open>Session migrator\<close>

text \<open>
  Modelled from the spec: \<open>migrateSessions\<close> and its ledger are not among the sources
  (only a prose description of the flow is); the definitions of this section follow the
  data model and section 4.2 of the spec. An identity is tagged, carries a user component
  and an optional device index. A session record is keyed by user, tag and device index.
  The device list gives the known device indices of a user. A ledger entry maps a
  phone-number user and a device to the time the migration completed, and is retained
  for a grace period of 7 days.
\<close>

datatype IdentityTag = PhoneNumber | LongLivedId

record Identity =
  idTag :: IdentityTag
  idUser :: string
  idDevice :: "nat option"

record MigratorState =
  sessionRecords :: "string \<times> IdentityTag \<times> nat \<Rightarrow> string option"
  deviceLists :: "string \<Rightarrow> nat list"
  ledger :: "string \<times> nat \<Rightarrow> int option"

record MigrationResult =
  migrated :: nat
  skipped :: nat
  total :: nat

datatype MigrationError = InvalidDirection | TransactionFailed

definition ledgerGraceMs :: int where
  "ledgerGraceMs = 7 * 24 * 60 * 60 * 1000"

text \<open>
  Modelled from the spec: step 3, "if an entry exists and is unexpired".
\<close>

definition ledgerUnexpired :: "MigratorState \<Rightarrow> int \<Rightarrow> string \<Rightarrow> nat \<Rightarrow> bool" where
  "ledgerUnexpired st now pnUser d =
     (case ledger st (pnUser, d) of None \<Rightarrow> False | Some completedAt \<Rightarrow> now - completedAt < ledgerGraceMs)"

text \<open>
  Modelled from the spec: steps 3 to 5. A device is staged when the ledger does not
  skip it and a session record exists at its phone-number key.
\<close>

definition stagedDevices :: "MigratorState \<Rightarrow> int \<Rightarrow> string \<Rightarrow> nat list \<Rightarrow> nat list" where
  "stagedDevices st now pnUser devices =
     filter (\<lambda>d. \<not> ledgerUnexpired st now pnUser d
                 \<and> sessionRecords st (pnUser, PhoneNumber, d) \<noteq> None) devices"

text \<open>
  Modelled from the spec: step 5, the staged write of the record under the
  long-lived-id key and the deletion of the phone-number key, for one device.
\<close>

definition moveSession :: "string \<Rightarrow> string \<Rightarrow> MigratorState \<Rightarrow> nat \<Rightarrow> MigratorState" where
  "moveSession pnUser lidUser st d =
     st\<lparr>sessionRecords :=
          (sessionRecords st)
            ((lidUser, LongLivedId, d) := sessionRecords st (pnUser, PhoneNumber, d),
             (pnUser, PhoneNumber, d) := None)\<rparr>"

text \<open>Modelled from the spec: step 7, a ledger entry per migrated device.\<close>

definition recordMigration :: "string \<Rightarrow> int \<Rightarrow> MigratorState \<Rightarrow> nat \<Rightarrow> MigratorState" where
  "recordMigration pnUser now st d = st\<lparr>ledger := (ledger st)((pnUser, d) \<mapsto> now)\<rparr>"

text \<open>
  Modelled from the spec: \<open>migrateSessions(sourceIdentity, targetIdentity)\<close>, steps 1 to
  7. \<open>txFails\<close> says whether the store rejects the transaction of step 6; a rejected
  transaction applies nothing, and the call fails. The result comes with the state
  after the call.
\<close>

definition migrateSessions :: "MigratorState \<Rightarrow> bool \<Rightarrow> int \<Rightarrow> Identity \<Rightarrow> Identity \<Rightarrow> MigrationError + MigrationResult \<times> MigratorState" where
  "migrateSessions st txFails now source target =
     (if \<not> (idTag source = PhoneNumber \<and> idTag target = LongLivedId) then Inl InvalidDirection
      else
        let devices = deviceLists st (idUser source)
        in if devices = [] then Inr (\<lparr>migrated = 0, skipped = 0, total = 0\<rparr>, st)
           else
             let staged = stagedDevices st now (idUser source) devices
             in if txFails then Inl TransactionFailed
                else
                  let moved = foldl (moveSession (idUser source) (idUser target)) st staged;
                      recorded = foldl (recordMigration (idUser source) now) moved staged
                  in Inr (\<lparr>migrated = length staged,
                            skipped = length devices - length staged,
                            total = length devices\<rparr>, recorded))"

text \<open>
  Two states for the scenarios of the spec. In \<open>twoDeviceState\<close> the devices 0 and 5 of
  a phone-number identity have session records and nothing was migrated yet. In
  \<open>staleLedgerState\<close> device 0 was migrated at time 1000 and a session record exists
  again at its phone-number key.
\<close>

definition pnIdentity :: Identity where
  "pnIdentity = \<lparr>idTag = PhoneNumber, idUser = ''5511900000000'', idDevice = None\<rparr>"

definition lidIdentity :: Identity where
  "lidIdentity = \<lparr>idTag = LongLivedId, idUser = ''abc123'', idDevice = None\<rparr>"

definition twoDeviceState :: MigratorState where
  "twoDeviceState =
     \<lparr>sessionRecords = [(''5511900000000'', PhoneNumber, 0) \<mapsto> ''record-0'',
                         (''5511900000000'', PhoneNumber, 5) \<mapsto> ''record-5''],
      deviceLists = (\<lambda>u. if u = ''5511900000000'' then [0, 5] else []),
      ledger = Map.empty\<rparr>"

definition staleLedgerState :: MigratorState where
  "staleLedgerState =
     \<lparr>sessionRecords = [(''5511900000000'', PhoneNumber, 0) \<mapsto> ''new-record'',
                         (''abc123'', LongLivedId, 0) \<mapsto> ''migrated-record''],
      deviceLists = (\<lambda>u. if u = ''5511900000000'' then [0] else []),
      ledger = [(''5511900000000'', 0) \<mapsto> 1000]\<rparr>"




section \<open>Properties of session cleanup\<close>

subsection \<open>The loop over the session keys\<close>

lemma foldl_processSession_snd:
  "snd (foldl (processSession config env act) acc ks)
     = snd acc @ filter (marksForDeletion config env act) ks"
  by (induction ks arbitrary: acc)
     (auto simp: processSession_def marksForDeletion_def Let_def split: option.splits)

lemma scanSessions_marked:
  "snd (scanSessions config env act stats ks) = filter (marksForDeletion config env act) ks"
  by (simp add: scanSessions_def foldl_processSession_snd)

lemma countDeletion_fields:
  "categoryTotal (countDeletion m s) = categoryTotal s + 1"
  "totalScanned (countDeletion m s) = totalScanned s"
  "totalDeleted (countDeletion m s) = totalDeleted s"
  "errors (countDeletion m s) = errors s"
  by (simp_all add: countDeletion_def categoryTotal_def)

lemma categoryTotal_errors_update:
  "categoryTotal (s\<lparr>errors := e\<rparr>) = categoryTotal s"
  by (simp add: categoryTotal_def)

lemma processSession_fields:
  "categoryTotal (fst (processSession config env act acc k)) + length (snd acc)
     = categoryTotal (fst acc) + length (snd (processSession config env act acc k))"
  "totalScanned (fst (processSession config env act acc k)) = totalScanned (fst acc)"
  "totalDeleted (fst (processSession config env act acc k)) = totalDeleted (fst acc)"
  by (auto simp: processSession_def Let_def countDeletion_fields categoryTotal_errors_update
           split: option.splits)

lemma foldl_processSession_fields:
  "categoryTotal (fst (foldl (processSession config env act) acc ks)) + length (snd acc)
     = categoryTotal (fst acc) + length (snd (foldl (processSession config env act) acc ks))
   \<and> totalScanned (fst (foldl (processSession config env act) acc ks)) = totalScanned (fst acc)
   \<and> totalDeleted (fst (foldl (processSession config env act) acc ks)) = totalDeleted (fst acc)"
proof (induction ks arbitrary: acc)
  case Nil
  show ?case by simp
next
  case (Cons k ks)
  show ?case
    using Cons.IH [of "processSession config env act acc k"]
          processSession_fields [of config env act acc k]
    by simp
qed

lemma scanSessions_fields:
  "categoryTotal (fst (scanSessions config env act stats ks))
     = categoryTotal stats + length (snd (scanSessions config env act stats ks))"
  "totalScanned (fst (scanSessions config env act stats ks)) = totalScanned stats"
  "totalDeleted (fst (scanSessions config env act stats ks)) = totalDeleted stats"
  using foldl_processSession_fields [of config env act "(stats, [])" ks]
  by (simp_all add: scanSessions_def)

subsection \<open>The store operations\<close>

lemma applyUpdates_delete_all:
  "applyUpdates (map (\<lambda>addr. (addr, None)) ks) al = filter (\<lambda>kv. fst kv \<notin> set ks) al"
proof -
  have "foldl (\<lambda>acc (k, v). case v of None \<Rightarrow> AList.delete k acc | Some x \<Rightarrow> AList.update k x acc) al
          (map (\<lambda>addr. (addr, None)) ks) = filter (\<lambda>kv. fst kv \<notin> set ks) al"
    for al :: "(string \<times> 'a) list"
  proof (induction ks arbitrary: al)
    case Nil
    show ?case by simp
  next
    case (Cons k ks)
    have "filter (\<lambda>kv. fst kv \<notin> set ks) (AList.delete k al)
            = filter (\<lambda>kv. fst kv \<notin> set (k # ks)) al"
      by (induction al) (auto simp: AList.delete_eq)
    with Cons.IH [of "AList.delete k al"] show ?case by simp
  qed
  then show ?thesis by (simp add: applyUpdates_def)
qed

lemma transaction_simps:
  "fst (transaction f work label st) = (if transactionThrows f then Inl storeError else Inr ())"
  "snd (transaction f work label st) =
     (if transactionThrows f then st\<lparr>txLog := txLog st @ [label]\<rparr>
      else work (st\<lparr>txLog := txLog st @ [label]\<rparr>))"
  by (simp_all add: transaction_def Let_def)

subsection \<open>Parsing the test keys\<close>

lemma parse_lid_primary:
  "parseSessionMetadata (cleanupTestEnv pn activities txFails) ''123456789_2.0''
     = Some (lidPrimaryMetadata None (truthyStr pn))"
  by (simp add: parseSessionMetadata_def cleanupTestEnv_def lidPrimaryMetadata_def elemAt_def
        truthyStr_def orDefault_def parseInt_def isWhiteSpace_def isDigit_def digitsValue_def Let_def)

subsection \<open>Retention rules\<close>

text \<open>
  Claim C1, as amended. A long-lived-id record with a live reverse phone-number mapping
  is never selected by the orphan rule. The loop of \<open>runCleanup\<close> puts its key into
  \<open>sessionsToDelete\<close> exactly when the key is scanned, an activity timestamp is tracked
  for its JID, and the inactive duration is strictly greater than the threshold of its
  device tier (primary days for device 0, secondary days otherwise). In particular it is
  never selected when no activity is tracked.
\<close>

theorem mapped_lid_selected_only_by_device_tier:
  assumes "parseSessionMetadata env signalAddr = Some parsed"
      and "isLID parsed" and "hasLIDMapping parsed = Some True"
  shows "signalAddr \<in> set (snd (scanSessions config env activityMap stats sessionKeys)) \<longleftrightarrow>
           signalAddr \<in> set sessionKeys \<and> truthyNum (activityMap (jid parsed)) \<and>
           nowAt env signalAddr - the (activityMap (jid parsed))
             > (if isPrimary parsed then primaryDeviceInactiveDays config
                else secondaryDeviceInactiveDays config) * 24 * 60 * 60 * 1000"
  using assms
  by (auto simp: scanSessions_marked marksForDeletion_def shouldCleanupSession_def Let_def)

theorem mapped_lid_selected_only_by_device_tier_witness:
  "''123456789_2.0'' \<notin> set (snd (scanSessions testConfig
       (cleanupTestEnv (Some ''5511999999999@s.whatsapp.net'') [] False)
       (map_of [(''123456789@lid'', 1700000000000 - 25 * 3600000)])
       emptyStats [''123456789_2.0'']))"
proof -
  have p: "parseSessionMetadata (cleanupTestEnv (Some ''5511999999999@s.whatsapp.net'') [] False)
             ''123456789_2.0'' = Some (lidPrimaryMetadata None True)"
    by (simp add: parse_lid_primary truthyStr_def)
  have l: "isLID (lidPrimaryMetadata None True)"
    and m: "hasLIDMapping (lidPrimaryMetadata None True) = Some True"
    by (simp_all add: lidPrimaryMetadata_def)
  show ?thesis
    using mapped_lid_selected_only_by_device_tier [OF p l m, of testConfig
            "map_of [(''123456789@lid'', 1700000000000 - 25 * 3600000)]" emptyStats
            "[''123456789_2.0'']"]
    by (simp add: lidPrimaryMetadata_def testConfig_def cleanupTestEnv_def truthyNum_def)
qed

text \<open>
  A timestamp of 0 is falsy and is treated as no tracked activity: only the orphan rule
  selects such a record.
\<close>

lemma zero_timestamp_counts_as_untracked:
  "fst (shouldCleanupSession config (metadata\<lparr>lastActivityMs := Some 0\<rparr>) now)
     \<longleftrightarrow> isLID metadata \<and> hasLIDMapping metadata = Some False"
  by (simp add: shouldCleanupSession_def truthyNum_def)

text \<open>
  Claim C1, as stated, fails: with the test configuration, the long-lived-id record
  \<open>123456789_2.0\<close> has a live reverse mapping and was last active 31 days ago; the run
  counts it as a primary device past its threshold and deletes it from the store.
\<close>

theorem mapped_lid_deleted_after_primary_threshold:
  "parseSessionMetadata
       (cleanupTestEnv (Some ''5511999999999@s.whatsapp.net'')
          [(''123456789@lid'', 1700000000000 - 31 * 86400000)] False) ''123456789_2.0''
     = Some (lidPrimaryMetadata None True) \<and>
   runCleanup testConfig
       (cleanupTestEnv (Some ''5511999999999@s.whatsapp.net'')
          [(''123456789@lid'', 1700000000000 - 31 * 86400000)] False) testState testStore
     = (\<lparr>totalScanned = 1, secondaryDevicesDeleted = 0, primaryDevicesDeleted = 1,
          lidOrphansDeleted = 0, totalDeleted = 1, durationMs = 0, errors = 0\<rparr>,
        \<lparr>lastCleanupAt = 1700000000000, cleanupRunning = False\<rparr>,
        \<lparr>session = [], sessionActivity = [], txLog = [''session-cleanup'']\<rparr>)"
  by code_simp

text \<open>
  Claim C4. For a record whose JID has no entry in the activity map, the loop of
  \<open>runCleanup\<close> selects the key exactly when the record is an orphan (a long-lived-id
  record whose reverse lookup found no phone number): an orphan without activity is
  selected in the run that scans it, an addressable primary or secondary device record
  without activity is never selected.
\<close>

theorem untracked_selected_iff_orphan:
  assumes "parseSessionMetadata env signalAddr = Some parsed"
      and "activityMap (jid parsed) = None"
  shows "signalAddr \<in> set (snd (scanSessions config env activityMap stats sessionKeys)) \<longleftrightarrow>
           signalAddr \<in> set sessionKeys \<and> isLID parsed \<and> hasLIDMapping parsed = Some False"
  using assms
  by (auto simp: scanSessions_marked marksForDeletion_def shouldCleanupSession_def
        truthyNum_def Let_def)

theorem untracked_selected_iff_orphan_witness:
  "''123456789_2.0'' \<in> set (snd (scanSessions testConfig (cleanupTestEnv None [] False)
       Map.empty emptyStats [''123456789_2.0'', ''5511999999999_0.1''])) \<and>
   ''5511999999999_0.1'' \<notin> set (snd (scanSessions testConfig (cleanupTestEnv None [] False)
       Map.empty emptyStats [''123456789_2.0'', ''5511999999999_0.1'']))"
proof -
  have p1: "parseSessionMetadata (cleanupTestEnv None [] False) ''123456789_2.0''
              = Some (lidPrimaryMetadata None False)"
    by (simp add: parse_lid_primary truthyStr_def)
  have p2: "parseSessionMetadata (cleanupTestEnv None [] False) ''5511999999999_0.1''
              = Some \<lparr>jid = ''5511999999999:1@s.whatsapp.net'', isLID = False, isPrimary = False,
                       lastActivityMs = None, hasLIDMapping = None\<rparr>"
    by code_simp
  have a1: "Map.empty (jid (lidPrimaryMetadata None False)) = (None :: int option)"
    and a2: "Map.empty (jid \<lparr>jid = ''5511999999999:1@s.whatsapp.net'', isLID = False,
                              isPrimary = False, lastActivityMs = None, hasLIDMapping = None\<rparr>)
               = (None :: int option)"
    by simp_all
  show ?thesis
    using untracked_selected_iff_orphan [OF p1 a1, of testConfig emptyStats
            "[''123456789_2.0'', ''5511999999999_0.1'']"]
          untracked_selected_iff_orphan [OF p2 a2, of testConfig emptyStats
            "[''123456789_2.0'', ''5511999999999_0.1'']"]
    by (simp add: lidPrimaryMetadata_def)
qed




subsection \<open>The bulk deletion\<close>

text \<open>
  Claim C6. In a run that selected at least one key, \<open>runCleanup\<close> issues exactly one
  store transaction, labelled \<open>session-cleanup\<close>, holding the deletion of every selected
  key. If it commits, exactly the selected keys are gone from the session namespace and
  \<open>totalDeleted\<close> is their number. If it fails, \<open>errors\<close> is one more than after the
  scan, \<open>totalDeleted\<close> is 0 and the session namespace is what it was: no selected
  record was deleted.
\<close>

theorem cleanup_deletion_is_atomic:
  assumes "enabled config" and "\<not> cleanupRunning cs"
      and "loadActivities env = Inr activityMap"
      and "scanned = scanSessions config env activityMap
                       (emptyStats\<lparr>totalScanned := length (getAllSessionKeys (faults env) st)\<rparr>)
                       (getAllSessionKeys (faults env) st)"
      and "snd scanned \<noteq> []"
      and "runCleanup config env cs st = (stats, cs', st')"
  shows "txLog st' = txLog st @ [''session-cleanup''] \<and>
         sessionActivity st' = sessionActivity st \<and>
         (if transactionThrows (faults env)
          then session st' = session st \<and> totalDeleted stats = 0 \<and>
               errors stats = errors (fst scanned) + 1
          else session st' = filter (\<lambda>kv. fst kv \<notin> set (snd scanned)) (session st) \<and>
               totalDeleted stats = length (snd scanned) \<and>
               errors stats = errors (fst scanned))"
proof -
  have td: "totalDeleted (fst scanned) = 0"
    using assms(4) by (simp add: scanSessions_fields emptyStats_def)
  show ?thesis
  proof (cases "transactionThrows (faults env)")
    case True
    with assms td show ?thesis
      by (auto simp: runCleanup_def Let_def transaction_simps)
  next
    case False
    with assms td show ?thesis
      by (auto simp: runCleanup_def Let_def transaction_simps applyUpdates_delete_all)
  qed
qed

theorem cleanup_deletion_is_atomic_witness:
  "session (snd (snd (runCleanup testConfig (cleanupTestEnv None [] True) testState testStore)))
     = session testStore \<and>
   totalDeleted (fst (runCleanup testConfig (cleanupTestEnv None [] True) testState testStore)) = 0 \<and>
   errors (fst (runCleanup testConfig (cleanupTestEnv None [] True) testState testStore)) = 1 \<and>
   txLog (snd (snd (runCleanup testConfig (cleanupTestEnv None [] True) testState testStore)))
     = [''session-cleanup'']"
proof -
  let ?env = "cleanupTestEnv None [] True"
  let ?scanned = "scanSessions testConfig ?env (map_of [])
                    (emptyStats\<lparr>totalScanned := length (getAllSessionKeys (faults ?env) testStore)\<rparr>)
                    (getAllSessionKeys (faults ?env) testStore)"
  let ?r = "runCleanup testConfig ?env testState testStore"
  have e: "enabled testConfig" by (simp add: testConfig_def)
  have n: "\<not> cleanupRunning testState" by (simp add: testState_def)
  have l: "loadActivities ?env = Inr (map_of [])"
    by (simp add: loadActivities_def cleanupTestEnv_def)
  have s: "snd ?scanned \<noteq> []" by code_simp
  have er: "errors (fst ?scanned) = 0" by code_simp
  have f: "transactionThrows (faults ?env)" by (simp add: cleanupTestEnv_def)
  have r: "?r = (fst ?r, fst (snd ?r), snd (snd ?r))" by simp
  show ?thesis
    using cleanup_deletion_is_atomic [OF e n l refl s r] er f
    by (simp add: testStore_def)
qed

text \<open>
  Claim C9. The statistics returned by \<open>runCleanup\<close>: when the store transaction does
  not fail, \<open>totalDeleted\<close> is the sum of the three per-category counters and is at most
  \<open>totalScanned\<close> (with or without per-record errors). When the deletion transaction is
  issued and fails, \<open>totalDeleted\<close> is 0 although the per-category counters, which were
  updated during the scan, sum to a positive number.
\<close>

theorem cleanup_stats_consistent:
  assumes "runCleanup config env cs st = (stats, cs', st')"
  shows "(\<not> transactionThrows (faults env) \<longrightarrow>
            totalDeleted stats
              = lidOrphansDeleted stats + secondaryDevicesDeleted stats + primaryDevicesDeleted stats \<and>
            totalDeleted stats \<le> totalScanned stats) \<and>
         (transactionThrows (faults env) \<longrightarrow> totalDeleted stats = 0) \<and>
         (transactionThrows (faults env) \<and> txLog st' = txLog st @ [''session-cleanup''] \<longrightarrow>
            0 < lidOrphansDeleted stats + secondaryDevicesDeleted stats + primaryDevicesDeleted stats)"
proof -
  let ?keys = "getAllSessionKeys (faults env) st"
  let ?stats1 = "emptyStats\<lparr>totalScanned := length ?keys\<rparr>"
  have zero: "categoryTotal ?stats1 = 0" "totalDeleted ?stats1 = 0"
             "totalScanned ?stats1 = length ?keys"
    by (simp_all add: categoryTotal_def emptyStats_def)
  have scan: "lidOrphansDeleted (fst (scanSessions config env act ?stats1 ?keys))
                + secondaryDevicesDeleted (fst (scanSessions config env act ?stats1 ?keys))
                + primaryDevicesDeleted (fst (scanSessions config env act ?stats1 ?keys))
                = length (snd (scanSessions config env act ?stats1 ?keys))"
             "totalScanned (fst (scanSessions config env act ?stats1 ?keys)) = length ?keys"
             "totalDeleted (fst (scanSessions config env act ?stats1 ?keys)) = 0"
             "length (snd (scanSessions config env act ?stats1 ?keys)) \<le> length ?keys" for act
  proof -
    show "lidOrphansDeleted (fst (scanSessions config env act ?stats1 ?keys))
            + secondaryDevicesDeleted (fst (scanSessions config env act ?stats1 ?keys))
            + primaryDevicesDeleted (fst (scanSessions config env act ?stats1 ?keys))
            = length (snd (scanSessions config env act ?stats1 ?keys))"
      using scanSessions_fields(1) [of config env act ?stats1 ?keys] zero(1)
      by (simp add: categoryTotal_def)
    show "totalScanned (fst (scanSessions config env act ?stats1 ?keys)) = length ?keys"
      using scanSessions_fields(2) [of config env act ?stats1 ?keys] zero(3) by simp
    show "totalDeleted (fst (scanSessions config env act ?stats1 ?keys)) = 0"
      using scanSessions_fields(3) [of config env act ?stats1 ?keys] zero(2) by simp
    show "length (snd (scanSessions config env act ?stats1 ?keys)) \<le> length ?keys"
      by (simp add: scanSessions_marked)
  qed
  show ?thesis
  proof (cases "enabled config \<and> \<not> cleanupRunning cs")
    case False
    then have "runCleanup config env cs st = (emptyStats, cs, st)"
      by (auto simp: runCleanup_def)
    with assms show ?thesis
      by (auto simp: emptyStats_def)
  next
    case run: True
    show ?thesis
    proof (cases "loadActivities env")
      case (Inl e)
      with run assms show ?thesis
        by (auto simp: runCleanup_def Let_def emptyStats_def)
    next
      case (Inr act)
      show ?thesis
      proof (cases "snd (scanSessions config env act ?stats1 ?keys) = []")
        case True
        with run Inr assms scan [of act] show ?thesis
          by (auto simp: runCleanup_def Let_def)
      next
        case False
        with run Inr assms scan [of act] show ?thesis
          by (auto simp: runCleanup_def Let_def transaction_simps)
      qed
    qed
  qed
qed

theorem cleanup_stats_consistent_witness:
  "totalDeleted (fst (runCleanup testConfig (cleanupTestEnv None [] True) testState testStore)) = 0 \<and>
   0 < lidOrphansDeleted (fst (runCleanup testConfig (cleanupTestEnv None [] True) testState testStore))
       + secondaryDevicesDeleted (fst (runCleanup testConfig (cleanupTestEnv None [] True) testState testStore))
       + primaryDevicesDeleted (fst (runCleanup testConfig (cleanupTestEnv None [] True) testState testStore)) \<and>
   totalDeleted (fst (runCleanup testConfig (cleanupTestEnv None [] False) testState testStore))
     = lidOrphansDeleted (fst (runCleanup testConfig (cleanupTestEnv None [] False) testState testStore))
       + secondaryDevicesDeleted (fst (runCleanup testConfig (cleanupTestEnv None [] False) testState testStore))
       + primaryDevicesDeleted (fst (runCleanup testConfig (cleanupTestEnv None [] False) testState testStore)) \<and>
   totalDeleted (fst (runCleanup testConfig (cleanupTestEnv None [] False) testState testStore))
     \<le> totalScanned (fst (runCleanup testConfig (cleanupTestEnv None [] False) testState testStore))"
proof -
  let ?bad = "runCleanup testConfig (cleanupTestEnv None [] True) testState testStore"
  let ?ok = "runCleanup testConfig (cleanupTestEnv None [] False) testState testStore"
  have rb: "?bad = (fst ?bad, fst (snd ?bad), snd (snd ?bad))" by simp
  have ro: "?ok = (fst ?ok, fst (snd ?ok), snd (snd ?ok))" by simp
  have fb: "transactionThrows (faults (cleanupTestEnv None [] True))"
    and fo: "\<not> transactionThrows (faults (cleanupTestEnv None [] False))"
    by (simp_all add: cleanupTestEnv_def)
  have lg: "txLog (snd (snd ?bad)) = txLog testStore @ [''session-cleanup'']" by code_simp
  show ?thesis
    using cleanup_stats_consistent [OF rb] cleanup_stats_consistent [OF ro] fb fo lg
    by simp
qed

section \<open>Properties of the activity tracker\<close>

lemma applyUpdates_Cons:
  "applyUpdates ((k, v) # ups) al
     = applyUpdates ups (case v of None \<Rightarrow> AList.delete k al | Some x \<Rightarrow> AList.update k x al)"
  by (simp add: applyUpdates_def)

lemma applyUpdates_Nil: "applyUpdates [] al = al"
  by (simp add: applyUpdates_def)

lemma map_of_applyUpdates_other:
  "k \<notin> fst ` set ups \<Longrightarrow> map_of (applyUpdates ups al) k = map_of al k"
proof (induction ups arbitrary: al)
  case Nil
  show ?case by (simp add: applyUpdates_Nil)
next
  case (Cons u ups)
  obtain k' v' where u: "u = (k', v')" by (cases u)
  with Cons.prems have ne: "k' \<noteq> k" and rest: "k \<notin> fst ` set ups" by auto
  show ?case
    using Cons.IH [OF rest] ne
    by (cases v') (simp_all add: u applyUpdates_Cons AList.update_conv AList.delete_conv)
qed

lemma map_of_applyUpdates_distinct:
  "distinct (map fst ups) \<Longrightarrow> (k, Some v) \<in> set ups \<Longrightarrow> map_of (applyUpdates ups al) k = Some v"
proof (induction ups arbitrary: al)
  case Nil
  then show ?case by simp
next
  case (Cons u ups)
  obtain k' v' where u: "u = (k', v')" by (cases u)
  show ?case
  proof (cases "u = (k, Some v)")
    case True
    with Cons.prems have "k \<notin> fst ` set ups" by auto
    then show ?thesis
      using True by (simp add: applyUpdates_Cons map_of_applyUpdates_other AList.update_conv)
  next
    case False
    with Cons.prems have "distinct (map fst ups)" and "(k, Some v) \<in> set ups" by auto
    then show ?thesis
      using Cons.IH by (simp add: u applyUpdates_Cons)
  qed
qed

lemma activityKey_inj: "activityKey a = activityKey b \<longleftrightarrow> a = b"
  by (simp add: activityKey_def)

lemma flush_updates_distinct:
  "distinct (map fst cache) \<Longrightarrow>
   distinct (map fst (map (\<lambda>(j, t). (activityKey j, Some (f t))) cache))"
  by (induction cache) (auto simp: activityKey_inj image_iff split: prod.splits)

lemma trackerInv_new: "trackerInv config newTracker"
  by (simp add: trackerInv_def newTracker_def)

lemma trackerInv_recordActivity:
  "trackerInv config tr \<Longrightarrow> trackerInv config (recordActivity config now j tr)"
  by (auto simp: trackerInv_def recordActivity_def Let_def AList.distinct_update)

lemma trackerInv_recordDuring:
  "trackerInv config tr \<Longrightarrow> trackerInv config (recordDuring config during tr)"
proof -
  have "trackerInv config tr \<Longrightarrow>
        trackerInv config (foldl (\<lambda>t (j, n). recordActivity config n j t) tr during)"
  proof (induction during arbitrary: tr)
    case Nil
    then show ?case by simp
  next
    case (Cons c cs)
    obtain j n where c: "c = (j, n)" by (cases c)
    from Cons.prems have "trackerInv config (recordActivity config n j tr)"
      by (rule trackerInv_recordActivity)
    from Cons.IH [OF this] show ?case by (simp add: c)
  qed
  then show "trackerInv config tr \<Longrightarrow> trackerInv config (recordDuring config during tr)"
    by (simp add: recordDuring_def)
qed

lemma trackerInv_flush:
  "trackerInv config tr \<Longrightarrow> trackerInv config (fst (flush config f t0 t1 during (tr, st)))"
proof -
  assume inv: "trackerInv config tr"
  have "trackerInv config (recordDuring config during tr)"
    using inv by (rule trackerInv_recordDuring)
  then have "trackerInv config ((recordDuring config during tr)\<lparr>isDirty := d, trackerStats := x,
                                   activityCache := []\<rparr>)" for d x
    by (simp add: trackerInv_def)
  with inv \<open>trackerInv config (recordDuring config during tr)\<close> show ?thesis
    by (auto simp: flush_def Let_def split: sum.splits)
qed

text \<open>
  What \<open>flush\<close> does in every state the tracker can reach, whatever is recorded while
  the transaction is awaited: it issues at most one store transaction, and none when
  the buffer is empty. If the transaction commits, every entry that was in the buffer
  when \<open>flush\<close> started is persisted and the buffer is empty afterwards. If it fails,
  \<open>flush\<close> itself changes nothing: the tracker is what the calls made during the wait
  left, and the persisted activity records are unchanged.
\<close>

lemma flush_persists_snapshot_or_keeps_buffer:
  assumes "trackerInv config tr"
      and "flush config f t0 t1 during (tr, st) = (tr', st')"
  shows "txLog st' = txLog st @ (if activityCache tr = [] then [] else [''session-activity-flush'']) \<and>
         session st' = session st \<and>
         (if transactionThrows f
          then tr' = (if activityCache tr = [] then tr else recordDuring config during tr) \<and>
               sessionActivity st' = sessionActivity st
          else (activityCache tr \<noteq> [] \<longrightarrow> activityCache tr' = []) \<and>
               (\<forall>j ts. map_of (activityCache tr) j = Some ts \<longrightarrow>
                  map_of (sessionActivity st') (activityKey j)
                    = Some \<lparr>lastActivityAt = ts, createdAt = Some ts\<rparr>))"
proof (cases "activityCache tr = []")
  case True
  then have "flush config f t0 t1 during (tr, st) = (tr, st)"
    by (simp add: flush_def)
  with assms(2) True show ?thesis by auto
next
  case False
  with assms(1) have en: "activityEnabled config" and dirty: "isDirty tr"
    and dist: "distinct (map fst (activityCache tr))"
    by (auto simp: trackerInv_def)
  let ?ups = "map (\<lambda>(j, t). (activityKey j, Some \<lparr>lastActivityAt = t, createdAt = Some t\<rparr>))
                (activityCache tr)"
  show ?thesis
  proof (cases "transactionThrows f")
    case True
    with assms(2) False en dirty show ?thesis
      by (auto simp: flush_def Let_def transaction_simps)
  next
    case ok: False
    have st': "st' = st\<lparr>txLog := txLog st @ [''session-activity-flush''],
                        sessionActivity := applyUpdates ?ups (sessionActivity st)\<rparr>"
      and tr': "activityCache tr' = []"
      using assms(2) False en dirty ok
      by (auto simp: flush_def Let_def transaction_simps)
    have persisted: "map_of (sessionActivity st') (activityKey j)
                       = Some \<lparr>lastActivityAt = ts, createdAt = Some ts\<rparr>"
      if "map_of (activityCache tr) j = Some ts" for j ts
    proof -
      from that have "(j, ts) \<in> set (activityCache tr)" by (rule map_of_SomeD)
      then have "(activityKey j, Some \<lparr>lastActivityAt = ts, createdAt = Some ts\<rparr>) \<in> set ?ups"
        by force
      moreover have "distinct (map fst ?ups)"
        using dist by (rule flush_updates_distinct)
      ultimately show ?thesis
        by (simp add: st' map_of_applyUpdates_distinct)
    qed
    show ?thesis
      using ok False st' tr' persisted by simp
  qed
qed

text \<open>
  Claim C7. The claim has \<open>flush\<close> write the entire buffer and then clear it. The code
  clears more than it wrote: \<open>5511999999999@s.whatsapp.net\<close> is recorded, \<open>flush\<close> starts
  and awaits its transaction, \<open>5511888888888@s.whatsapp.net\<close> is recorded meanwhile, and
  the transaction commits. Afterwards the buffer is empty, the store holds the first
  identity only, and the second is in neither: \<open>getLastActivity\<close> finds nothing for it.
  When the transaction fails instead, both entries stay in the buffer.
\<close>

theorem flush_clears_entry_recorded_during_write:
  "activityCache (fst (flush enabledTracking noFaults 1700000000001 1700000000003
       [(''5511888888888@s.whatsapp.net'', 1700000000002)]
       (recordActivity enabledTracking 1700000000000 ''5511999999999@s.whatsapp.net'' newTracker,
        activityStore))) = [] \<and>
   sessionActivity (snd (flush enabledTracking noFaults 1700000000001 1700000000003
       [(''5511888888888@s.whatsapp.net'', 1700000000002)]
       (recordActivity enabledTracking 1700000000000 ''5511999999999@s.whatsapp.net'' newTracker,
        activityStore)))
     = [(''session-activity:5511999999999@s.whatsapp.net'',
         \<lparr>lastActivityAt = 1700000000000, createdAt = Some 1700000000000\<rparr>)] \<and>
   getLastActivity enabledTracking noFaults
       (snd (flush enabledTracking noFaults 1700000000001 1700000000003
          [(''5511888888888@s.whatsapp.net'', 1700000000002)]
          (recordActivity enabledTracking 1700000000000 ''5511999999999@s.whatsapp.net'' newTracker,
           activityStore)))
       ''5511888888888@s.whatsapp.net''
       (fst (flush enabledTracking noFaults 1700000000001 1700000000003
          [(''5511888888888@s.whatsapp.net'', 1700000000002)]
          (recordActivity enabledTracking 1700000000000 ''5511999999999@s.whatsapp.net'' newTracker,
           activityStore))) = None \<and>
   activityCache (fst (flush enabledTracking failingTransaction 1700000000001 1700000000003
       [(''5511888888888@s.whatsapp.net'', 1700000000002)]
       (recordActivity enabledTracking 1700000000000 ''5511999999999@s.whatsapp.net'' newTracker,
        activityStore)))
     = [(''5511999999999@s.whatsapp.net'', 1700000000000),
        (''5511888888888@s.whatsapp.net'', 1700000000002)]"
  by code_simp

theorem flush_clears_entry_recorded_during_write_witness:
  "map_of (sessionActivity (snd (flush enabledTracking noFaults 1700000000001 1700000000003
       [(''5511888888888@s.whatsapp.net'', 1700000000002)]
       (recordActivity enabledTracking 1700000000000 ''5511999999999@s.whatsapp.net'' newTracker,
        activityStore))))
     ''session-activity:5511888888888@s.whatsapp.net'' = None \<and>
   map_of (activityCache (fst (flush enabledTracking noFaults 1700000000001 1700000000003
       [(''5511888888888@s.whatsapp.net'', 1700000000002)]
       (recordActivity enabledTracking 1700000000000 ''5511999999999@s.whatsapp.net'' newTracker,
        activityStore))))
     ''5511888888888@s.whatsapp.net'' = None"
  using flush_clears_entry_recorded_during_write by simp

text \<open>
  Claim C10. With the tracker disabled, \<open>recordActivity\<close> returns the tracker unchanged,
  \<open>getLastActivity\<close> returns \<open>undefined\<close> and \<open>getAllActivities\<close> the empty map whatever
  the persistent store holds, and \<open>flush\<close> returns the tracker and the store unchanged,
  without issuing a transaction (it returns before any \<open>await\<close>).
\<close>

theorem disabled_tracker_is_inert:
  assumes "\<not> activityEnabled config"
  shows "recordActivity config now j tr = tr \<and>
         getLastActivity config f st j tr = None \<and>
         getAllActivities config f st tr = [] \<and>
         flush config f t0 t1 during (tr, st) = (tr, st)"
  using assms
  by (simp add: recordActivity_def getLastActivity_def getAllActivities_def flush_def)

theorem disabled_tracker_is_inert_witness:
  "recordActivity disabledTracking 1700000000000 ''5511999999999@s.whatsapp.net'' newTracker
     = newTracker \<and>
   getLastActivity disabledTracking noFaults activityStore ''5511999999999@s.whatsapp.net'' newTracker
     = None \<and>
   getAllActivities disabledTracking noFaults activityStore newTracker = [] \<and>
   flush disabledTracking noFaults 1700000000001 1700000000003
       [(''5511888888888@s.whatsapp.net'', 1700000000002)] (newTracker, activityStore)
     = (newTracker, activityStore)"
proof -
  have d: "\<not> activityEnabled disabledTracking" by (simp add: disabledTracking_def)
  show ?thesis
    using disabled_tracker_is_inert [OF d] by simp
qed

lemma enabled_tracker_sees_store:
  "getLastActivity enabledTracking noFaults activityStore ''5511999999999@s.whatsapp.net'' newTracker
     = Some 1234567890 \<and>
   getAllActivities enabledTracking noFaults activityStore newTracker
     = [(''5511999999999@s.whatsapp.net'', 1234567890)]"
  by code_simp

section \<open>Properties of the decryption pipeline\<close>

subsection \<open>The retry loop\<close>

lemma retryLoop_calls:
  "retryLoop opts fn a r = (res, n) \<Longrightarrow> a \<le> n \<and> n \<le> a + r"
proof (induction r arbitrary: a)
  case 0
  then show ?case by (auto split: sum.splits)
next
  case (Suc r)
  show ?case
  proof (cases "fn a")
    case (Inr v)
    with Suc.prems show ?thesis by simp
  next
    case (Inl e)
    show ?thesis
    proof (cases "shouldRetry opts e a")
      case True
      with Inl Suc.prems have "retryLoop opts fn (Suc a) r = (res, n)" by simp
      from Suc.IH [OF this] show ?thesis by simp
    next
      case False
      with Inl Suc.prems show ?thesis by simp
    qed
  qed
qed

lemma retryLoop_earlier_retryable:
  "retryLoop opts fn a r = (res, n) \<Longrightarrow> a \<le> k \<Longrightarrow> k < n \<Longrightarrow>
     \<exists>e. fn k = Inl e \<and> shouldRetry opts e k"
proof (induction r arbitrary: a)
  case 0
  then show ?case by (auto split: sum.splits)
next
  case (Suc r)
  show ?case
  proof (cases "fn a")
    case (Inr v)
    with Suc.prems show ?thesis by simp
  next
    case (Inl e)
    show ?thesis
    proof (cases "shouldRetry opts e a")
      case True
      with Inl Suc.prems have rec: "retryLoop opts fn (Suc a) r = (res, n)" by simp
      show ?thesis
      proof (cases "k = a")
        case True
        with Inl \<open>shouldRetry opts e a\<close> show ?thesis by simp
      next
        case False
        with Suc.prems have "Suc a \<le> k" by simp
        from Suc.IH [OF rec this Suc.prems(3)] show ?thesis .
      qed
    next
      case False
      with Inl Suc.prems show ?thesis by simp
    qed
  qed
qed

lemma retryLoop_failure:
  "retryLoop opts fn a r = (Inl err, n) \<Longrightarrow> fn n = Inl (originalErrorOf err)"
proof (induction r arbitrary: a)
  case 0
  then show ?case by (auto split: sum.splits)
next
  case (Suc r)
  then show ?case by (auto split: sum.splits if_splits)
qed

lemma retryLoop_retried:
  "retryLoop opts fn a r = (res, n) \<Longrightarrow> a \<le> k \<Longrightarrow> k \<le> n \<Longrightarrow> k < a + r \<Longrightarrow>
   fn k = Inl e \<Longrightarrow> shouldRetry opts e k \<Longrightarrow> k < n"
proof (induction r arbitrary: a)
  case 0
  then show ?case by simp
next
  case (Suc r)
  show ?case
  proof (cases "k = a")
    case True
    with Suc.prems have "retryLoop opts fn (Suc a) r = (res, n)" by simp
    from retryLoop_calls [OF this] True show ?thesis by simp
  next
    case False
    with Suc.prems have ak: "Suc a \<le> k" by simp
    with Suc.prems have "a < n" by simp
    from retryLoop_earlier_retryable [OF Suc.prems(1) order_refl this]
    obtain e' where "fn a = Inl e'" "shouldRetry opts e' a" by auto
    with Suc.prems have rec: "retryLoop opts fn (Suc a) r = (res, n)" by simp
    from Suc.IH [OF rec ak Suc.prems(3) _ Suc.prems(5) Suc.prems(6)] Suc.prems(4)
    show ?thesis by simp
  qed
qed

subsection \<open>The retry predicate of the decryption options\<close>

lemma shouldRetry_decryption:
  "shouldRetry DECRYPTION_RETRY_OPTIONS e k =
     (let errorMsg = message e
      in if list_ex (\<lambda>err. strIncludes errorMsg err) (sessionRecordErrors DECRYPTION_RETRY_CONFIG)
         then k < 3
         else if list_ex (\<lambda>err. strIncludes errorMsg err) (corruptedSessionErrors DECRYPTION_RETRY_CONFIG)
         then False
         else k < 2)"
  by (simp add: DECRYPTION_RETRY_OPTIONS_def)

lemma shouldRetry_corrupted:
  assumes "message e \<noteq> []" and "isCorruptedSessionError e" and "\<not> isSessionRecordError e"
  shows "\<not> shouldRetry DECRYPTION_RETRY_OPTIONS e k"
  using assms
  by (simp add: shouldRetry_decryption isCorruptedSessionError_def isSessionRecordError_def
        errorMessageOf_def Let_def)

lemma shouldRetry_session_record:
  assumes "message e \<noteq> []" and "isSessionRecordError e"
  shows "shouldRetry DECRYPTION_RETRY_OPTIONS e k \<longleftrightarrow> k < 3"
  using assms
  by (simp add: shouldRetry_decryption isSessionRecordError_def errorMessageOf_def Let_def)

lemma maxAttempts_decryption: "maxAttempts DECRYPTION_RETRY_OPTIONS = 3"
  by (simp add: DECRYPTION_RETRY_OPTIONS_def)


lemma startsWith_Nil: "startsWith [] p \<longleftrightarrow> p = []"
  by (cases p) auto

lemma startsWith_append_strIncludes: "startsWith s (p @ q) \<Longrightarrow> strIncludes s q"
proof (induction p arbitrary: s)
  case Nil
  then show ?case by (cases s) (auto simp: startsWith_Nil)
next
  case (Cons x p)
  then show ?case by (cases s) auto
qed

lemma strIncludes_append: "strIncludes m (p @ q) \<Longrightarrow> strIncludes m q"
proof (induction m)
  case Nil
  then show ?case by simp
next
  case (Cons c cs)
  from Cons.prems have "startsWith (c # cs) (p @ q) \<or> strIncludes cs (p @ q)" by simp
  then show ?case
  proof
    assume "startsWith (c # cs) (p @ q)"
    then show ?thesis by (rule startsWith_append_strIncludes)
  next
    assume "strIncludes cs (p @ q)"
    with Cons.IH have "strIncludes cs q" by simp
    then show ?thesis by simp
  qed
qed

lemma no_session_record_pattern:
  "list_ex (\<lambda>err. strIncludes m err) (sessionRecordErrors DECRYPTION_RETRY_CONFIG)
     \<longleftrightarrow> strIncludes m ''No session record''"
  using strIncludes_append [of m "''SessionError: ''" "''No session record''"]
  by (auto simp: DECRYPTION_RETRY_CONFIG_def)

text \<open>
  Claim C8, as amended. \<open>retry\<close> with the decryption options makes between one and three
  cipher calls. A call before the third that fails with an error whose message contains
  \<open>No session record\<close> is followed by another call. A call that fails with an error
  classified as a corrupted session, whose message is not empty and does not contain
  \<open>No session record\<close>, is the last call. The options select exponential backoff; the
  delays themselves are not part of the model.
\<close>

theorem decryption_retry_policy:
  assumes "retry fn DECRYPTION_RETRY_OPTIONS = (res, n)"
  shows "1 \<le> n \<and> n \<le> 3 \<and>
         (\<forall>k e. 1 \<le> k \<and> k \<le> n \<and> k < 3 \<and> fn k = Inl e \<and>
                 strIncludes (message e) ''No session record'' \<longrightarrow> k < n) \<and>
         (\<forall>k e. 1 \<le> k \<and> k \<le> n \<and> fn k = Inl e \<and> message e \<noteq> [] \<and>
                 isCorruptedSessionError e \<and> \<not> strIncludes (message e) ''No session record''
                 \<longrightarrow> n = k) \<and>
         backoffStrategy DECRYPTION_RETRY_OPTIONS = ''exponential''"
proof -
  from assms have loop: "retryLoop DECRYPTION_RETRY_OPTIONS fn 1 2 = (res, n)"
    by (simp add: retry_def maxAttempts_decryption numeral_2_eq_2)
  from retryLoop_calls [OF loop] have bounds: "1 \<le> n \<and> n \<le> 3" by simp
  have again: "k < n"
    if "1 \<le> k" "k \<le> n" "k < 3" "fn k = Inl e" "strIncludes (message e) ''No session record''"
    for k e
  proof -
    from that(5) have "shouldRetry DECRYPTION_RETRY_OPTIONS e k \<longleftrightarrow> k < 3"
      by (simp add: shouldRetry_decryption no_session_record_pattern)
    with that(3) have "shouldRetry DECRYPTION_RETRY_OPTIONS e k" by simp
    from retryLoop_retried [OF loop that(1) that(2) _ that(4) this] that(3)
    show ?thesis by simp
  qed
  have last: "n = k"
    if "1 \<le> k" "k \<le> n" "fn k = Inl e" "message e \<noteq> []" "isCorruptedSessionError e"
       "\<not> strIncludes (message e) ''No session record''"
    for k e
  proof (rule ccontr)
    assume "n \<noteq> k"
    with that(2) have "k < n" by simp
    from retryLoop_earlier_retryable [OF loop that(1) this] that(3)
    have "shouldRetry DECRYPTION_RETRY_OPTIONS e k" by simp
    moreover have "\<not> shouldRetry DECRYPTION_RETRY_OPTIONS e k"
      using that(4,5,6)
      by (simp add: shouldRetry_decryption no_session_record_pattern isCorruptedSessionError_def
            errorMessageOf_def)
    ultimately show False by simp
  qed
  have strategy: "backoffStrategy DECRYPTION_RETRY_OPTIONS = ''exponential''"
    by (simp add: DECRYPTION_RETRY_OPTIONS_def)
  from bounds again last strategy show ?thesis by blast
qed

theorem decryption_retry_policy_witness:
  "snd (retry (alwaysFailing noSessionError) DECRYPTION_RETRY_OPTIONS) = 3 \<and>
   snd (retry (alwaysFailing badMacError) DECRYPTION_RETRY_OPTIONS) = 1"
proof -
  let ?s = "retry (alwaysFailing noSessionError) DECRYPTION_RETRY_OPTIONS"
  let ?b = "retry (alwaysFailing badMacError) DECRYPTION_RETRY_OPTIONS"
  have rs: "?s = (fst ?s, snd ?s)" and rb: "?b = (fst ?b, snd ?b)" by simp_all
  have ns: "strIncludes (message noSessionError) ''No session record''" by code_simp
  have bm: "message badMacError \<noteq> []" "isCorruptedSessionError badMacError"
           "\<not> strIncludes (message badMacError) ''No session record''"
    by code_simp+
  note s = decryption_retry_policy [OF rs]
  note b = decryption_retry_policy [OF rb]
  have s1: "1 < snd ?s"
    using s ns by (auto simp: alwaysFailing_def)
  then have "2 < snd ?s"
    using s ns by (auto simp: alwaysFailing_def)
  with s have "snd ?s = 3" by simp
  moreover have "snd ?b = 1"
    using b bm by (auto simp: alwaysFailing_def)
  ultimately show ?thesis by simp
qed

text \<open>
  Claim C8, as stated, fails: an error whose message contains both \<open>Bad MAC\<close> and
  \<open>No session record\<close> is classified as a corrupted session, and the cipher is called
  three times.
\<close>

theorem corrupted_error_retried_when_also_session_record:
  "isCorruptedSessionError overlappingError \<and>
   retry (alwaysFailing overlappingError) DECRYPTION_RETRY_OPTIONS
     = (Inl (RetryExhaustedError overlappingError 3), 3)"
  by code_simp

subsection \<open>Recovery from a corrupted session\<close>

lemma showNat_digits:
  "showNat 1 = ''1''" "showNat 2 = ''2''" "showNat 3 = ''3''" "showNat 4 = ''4''" "showNat 5 = ''5''"
  by code_simp+

lemma showNat_Suc_0: "showNat (Suc 0) = ''1''"
  using showNat_digits(1) by simp

lemma cleanupCorruptedSession_calls:
  assumes "jidDecode env j = Some decoded" and "user decoded \<noteq> []"
  shows "snd (cleanupCorruptedSession env j calls)
           = calls @ [corruptedSessionJids (user decoded) (device decoded) (corruptedSessionDomain j)]"
  using assms
  by (simp add: cleanupCorruptedSession_def corruptedSessionJids_def showNat_digits showNat_Suc_0 Let_def
           split: option.splits)

lemma handleDecryptError_stub:
  "messageStubType (fullMessage (handleDecryptError env autoClean j err s)) = Some CIPHERTEXT"
  "messageStubParameters (fullMessage (handleDecryptError env autoClean j err s))
     = [message (originalErrorOf err)]"
  "cipherCalls (handleDecryptError env autoClean j err s) = cipherCalls s"
  by (simp_all add: handleDecryptError_def Let_def)

lemma handleDecryptError_calls:
  "deleteSessionCalls (handleDecryptError env autoClean j err s)
     = (if isCorruptedSessionError (originalErrorOf err) \<and> autoClean
        then snd (cleanupCorruptedSession env j (deleteSessionCalls s))
        else deleteSessionCalls s)"
  by (simp add: handleDecryptError_def Let_def)

lemma decryptNode_failed_enc:
  assumes "tag node = ''enc''" and "content node = Some bytes" and "attrType node = Some t"
      and "t = ''skmsg'' \<or> t = ''pkmsg'' \<or> t = ''msg''"
      and "fst (retry (cipherCall env author sender j t bytes) DECRYPTION_RETRY_OPTIONS) = Inl err"
  shows "decryptNode env autoClean author sender s (node, j)
           = handleDecryptError env autoClean j err
               (s\<lparr>decryptables := decryptables s + 1,
                   cipherCalls := cipherCalls s
                     + snd (retry (cipherCall env author sender j t bytes) DECRYPTION_RETRY_OPTIONS)\<rparr>)"
  using assms
  by (auto simp: decryptNode_def decryptPayload_def Let_def)

lemma decryptNode_keeps_stub:
  assumes "messageStubType (fullMessage s) = Some CIPHERTEXT"
  shows "messageStubType (fullMessage (decryptNode env autoClean author sender s child))
           = Some CIPHERTEXT"
  using assms
  by (auto simp: decryptNode_def Let_def handleDecryptError_stub split: option.splits sum.splits)

lemma decrypt_keeps_stub:
  assumes "messageStubType (fullMessage s) = Some CIPHERTEXT"
  shows "messageStubType (fullMessage (decrypt env autoClean author sender children s))
           = Some CIPHERTEXT"
proof -
  have "messageStubType (fullMessage (foldl (decryptNode env autoClean author sender) s children))
          = Some CIPHERTEXT"
    using assms
  proof (induction children arbitrary: s)
    case Nil
    then show ?case by simp
  next
    case (Cons c cs)
    from decryptNode_keeps_stub [OF Cons.prems] Cons.IH show ?case by simp
  qed
  then show ?thesis by (simp add: decrypt_def finishDecrypt_def)
qed


text \<open>
  Claim C2, as amended. Take an \<open>enc\<close> child (type \<open>skmsg\<close>, \<open>pkmsg\<close> or \<open>msg\<close>) whose
  retried cipher call ends in an error classified as a corrupted session, and whose
  decryption JID decodes to a user. Then the message is a \<open>CIPHERTEXT\<close> stub whose
  parameter is the message of the error, and it is still a stub at the end of the run,
  whatever children follow. When \<open>autoCleanCorrupted\<close> is set, \<open>deleteSession\<close> is called
  once, for the user's primary address, the devices 1 to 5 and the sender's own device
  if above 5, all under the domain of the decryption JID; when it is not set, no session
  is deleted. No cipher call that failed with a corrupted-session error (with a message
  that does not contain \<open>No session record\<close>) is followed by another cipher call.
\<close>

theorem corrupted_session_recovery:
  assumes "tag node = ''enc''" and "content node = Some bytes" and "attrType node = Some t"
      and "t = ''skmsg'' \<or> t = ''pkmsg'' \<or> t = ''msg''"
      and "attempt = retry (cipherCall env author sender decryptionJid t bytes) DECRYPTION_RETRY_OPTIONS"
      and "fst attempt = Inl err"
      and "isCorruptedSessionError (originalErrorOf err)"
      and "jidDecode env decryptionJid = Some decoded" and "user decoded \<noteq> []"
      and "s' = decryptNode env autoClean author sender s (node, decryptionJid)"
  shows "messageStubType (fullMessage s') = Some CIPHERTEXT \<and>
         messageStubParameters (fullMessage s') = [message (originalErrorOf err)] \<and>
         messageStubType (fullMessage (decrypt env autoClean author sender rest s')) = Some CIPHERTEXT \<and>
         deleteSessionCalls s'
           = (if autoClean
              then deleteSessionCalls s
                   @ [corruptedSessionJids (user decoded) (device decoded)
                        (corruptedSessionDomain decryptionJid)]
              else deleteSessionCalls s) \<and>
         cipherCalls s' = cipherCalls s + snd attempt \<and>
         (\<forall>k e. 1 \<le> k \<and> k < snd attempt \<and>
                 cipherCall env author sender decryptionJid t bytes k = Inl e \<and>
                 message e \<noteq> [] \<and> isCorruptedSessionError e
                 \<longrightarrow> strIncludes (message e) ''No session record'')"
proof -
  let ?s1 = "s\<lparr>decryptables := decryptables s + 1, cipherCalls := cipherCalls s + snd attempt\<rparr>"
  have step: "s' = handleDecryptError env autoClean decryptionJid err ?s1"
    using decryptNode_failed_enc [OF assms(1-4), of env author sender decryptionJid err autoClean s]
          assms(5,6,10)
    by simp
  have stub: "messageStubType (fullMessage s') = Some CIPHERTEXT"
    and params: "messageStubParameters (fullMessage s') = [message (originalErrorOf err)]"
    and calls: "cipherCalls s' = cipherCalls s + snd attempt"
    by (simp_all add: step handleDecryptError_stub)
  have final: "messageStubType (fullMessage (decrypt env autoClean author sender rest s'))
                 = Some CIPHERTEXT"
    using stub by (rule decrypt_keeps_stub)
  have deleted: "deleteSessionCalls s'
                   = (if autoClean
                      then deleteSessionCalls s
                           @ [corruptedSessionJids (user decoded) (device decoded)
                                (corruptedSessionDomain decryptionJid)]
                      else deleteSessionCalls s)"
    using assms(7) cleanupCorruptedSession_calls [OF assms(8,9), of "deleteSessionCalls s"]
    by (simp add: step handleDecryptError_calls)
  have pair: "retry (cipherCall env author sender decryptionJid t bytes) DECRYPTION_RETRY_OPTIONS
                = (fst attempt, snd attempt)"
    using assms(5) by simp
  have noretry: "strIncludes (message e) ''No session record''"
    if "1 \<le> k" "k < snd attempt"
       "cipherCall env author sender decryptionJid t bytes k = Inl e"
       "message e \<noteq> []" "isCorruptedSessionError e"
    for k e
  proof (rule ccontr)
    assume no: "\<not> strIncludes (message e) ''No session record''"
    from pair have loop: "retryLoop DECRYPTION_RETRY_OPTIONS
                            (cipherCall env author sender decryptionJid t bytes) 1 2
                            = (fst attempt, snd attempt)"
      by (simp add: retry_def maxAttempts_decryption numeral_2_eq_2)
    from retryLoop_earlier_retryable [OF loop that(1,2)] that(3)
    have "shouldRetry DECRYPTION_RETRY_OPTIONS e k" by simp
    moreover have "\<not> shouldRetry DECRYPTION_RETRY_OPTIONS e k"
      using that(4,5) no
      by (simp add: shouldRetry_decryption no_session_record_pattern isCorruptedSessionError_def
            errorMessageOf_def)
    ultimately show False by simp
  qed
  from stub params final deleted calls noretry show ?thesis by blast
qed

theorem corrupted_session_recovery_witness:
  "messageStubType (fullMessage (decrypt (failingEnv badMacError) True
       ''5511999999999@s.whatsapp.net'' ''5511999999999@s.whatsapp.net''
       [(encNode, ''5511999999999@s.whatsapp.net'')] initialDecryptState)) = Some CIPHERTEXT \<and>
   messageStubParameters (fullMessage (decryptNode (failingEnv badMacError) True
       ''5511999999999@s.whatsapp.net'' ''5511999999999@s.whatsapp.net''
       initialDecryptState (encNode, ''5511999999999@s.whatsapp.net''))) = [''Bad MAC''] \<and>
   deleteSessionCalls (decryptNode (failingEnv badMacError) True
       ''5511999999999@s.whatsapp.net'' ''5511999999999@s.whatsapp.net''
       initialDecryptState (encNode, ''5511999999999@s.whatsapp.net''))
     = [[''5511999999999@s.whatsapp.net'', ''5511999999999:1@s.whatsapp.net'',
         ''5511999999999:2@s.whatsapp.net'', ''5511999999999:3@s.whatsapp.net'',
         ''5511999999999:4@s.whatsapp.net'', ''5511999999999:5@s.whatsapp.net'']] \<and>
   cipherCalls (decryptNode (failingEnv badMacError) True
       ''5511999999999@s.whatsapp.net'' ''5511999999999@s.whatsapp.net''
       initialDecryptState (encNode, ''5511999999999@s.whatsapp.net'')) = 1"
proof -
  let ?j = "''5511999999999@s.whatsapp.net''"
  let ?env = "failingEnv badMacError"
  let ?attempt = "retry (cipherCall ?env ?j ?j ?j ''msg'' ''ciphertext'') DECRYPTION_RETRY_OPTIONS"
  let ?s' = "decryptNode ?env True ?j ?j initialDecryptState (encNode, ?j)"
  have n: "tag encNode = ''enc''" "content encNode = Some ''ciphertext''"
          "attrType encNode = Some ''msg''"
    by (simp_all add: encNode_def)
  have t: "''msg'' = ''skmsg'' \<or> ''msg'' = ''pkmsg'' \<or> ''msg'' = ''msg''" by simp
  have a: "?attempt = (Inl (Thrown badMacError), 1)" by code_simp
  then have f: "fst ?attempt = Inl (Thrown badMacError)" and c: "snd ?attempt = 1" by simp_all
  have k: "isCorruptedSessionError (originalErrorOf (Thrown badMacError))" by code_simp
  have d: "jidDecode ?env ?j = Some \<lparr>user = ''5511999999999'', device = None\<rparr>"
    by (simp add: failingEnv_def)
  have u: "user \<lparr>user = ''5511999999999'', device = None\<rparr> \<noteq> []" by simp
  have dom: "corruptedSessionDomain ?j = ''s.whatsapp.net''" by code_simp
  have first: "decrypt ?env True ?j ?j [(encNode, ?j)] initialDecryptState
                 = decrypt ?env True ?j ?j [] ?s'"
    by (simp add: decrypt_def)
  show ?thesis
    using corrupted_session_recovery [OF n t refl f k d u refl,
            where autoClean = True and s = initialDecryptState and rest = "[]"]
          c dom first
    by (simp add: corruptedSessionJids_def initialDecryptState_def badMacError_def)
qed

text \<open>
  Claim C2, as stated, fails in two ways. With \<open>autoCleanCorrupted\<close> off (as in the test
  configuration) a \<open>Bad MAC\<close> failure deletes no session. And an error whose message
  matches a corrupted-session pattern and a session-record pattern is retried: the
  cipher is called three times before the sessions are deleted.
\<close>

theorem corrupted_session_not_cleaned_or_retried:
  "isCorruptedSessionError badMacError \<and>
   deleteSessionCalls (decrypt (failingEnv badMacError) False
       ''5511999999999@s.whatsapp.net'' ''5511999999999@s.whatsapp.net''
       [(encNode, ''5511999999999@s.whatsapp.net'')] initialDecryptState) = [] \<and>
   isCorruptedSessionError overlappingError \<and>
   cipherCalls (decrypt (failingEnv overlappingError) True
       ''5511999999999@s.whatsapp.net'' ''5511999999999@s.whatsapp.net''
       [(encNode, ''5511999999999@s.whatsapp.net'')] initialDecryptState) = 3"
  by code_simp

section \<open>Properties of the session migrator\<close>

lemma foldl_moveSession_fields:
  "deviceLists (foldl (moveSession p l) st ds) = deviceLists st"
  "ledger (foldl (moveSession p l) st ds) = ledger st"
  by (induction ds arbitrary: st) (simp_all add: moveSession_def)

lemma foldl_recordMigration_fields:
  "deviceLists (foldl (recordMigration p now) st ds) = deviceLists st"
  "sessionRecords (foldl (recordMigration p now) st ds) = sessionRecords st"
  by (induction ds arbitrary: st) (simp_all add: recordMigration_def)

lemma foldl_moveSession_pn:
  "sessionRecords (foldl (moveSession p l) st ds) (p, PhoneNumber, d)
     = (if d \<in> set ds then None else sessionRecords st (p, PhoneNumber, d))"
  by (induction ds arbitrary: st) (auto simp: moveSession_def)

lemma stagedDevices_empty:
  assumes "\<forall>d\<in>set devices. sessionRecords st (p, PhoneNumber, d) = None"
  shows "stagedDevices st now p devices = []"
  using assms by (simp add: stagedDevices_def)

text \<open>
  Claim C3, as amended. Suppose that, when the first call starts, no known device of the
  phone-number identity that has an unexpired ledger entry holds a session record at
  its phone-number key (ledger entries are only written when that key is deleted). If
  \<open>migrateSessions(pn, lid)\<close> succeeds, then afterwards no known device has a session
  record at its phone-number key, so none has records under both keyspaces; and a
  second call with the same arguments, at any time, returns \<open>migrated = 0\<close> and leaves
  the state as it is.
\<close>

theorem migration_is_idempotent:
  assumes first: "migrateSessions st txFails now pn lid = Inr (r1, st1)"
      and consistent: "\<forall>d\<in>set (deviceLists st (idUser pn)).
                         ledgerUnexpired st now (idUser pn) d
                         \<longrightarrow> sessionRecords st (idUser pn, PhoneNumber, d) = None"
  shows "(\<forall>d\<in>set (deviceLists st1 (idUser pn)).
            \<not> (sessionRecords st1 (idUser pn, PhoneNumber, d) \<noteq> None \<and>
               sessionRecords st1 (idUser lid, LongLivedId, d) \<noteq> None)) \<and>
         migrateSessions st1 False now2 pn lid
           = Inr (\<lparr>migrated = 0, skipped = length (deviceLists st1 (idUser pn)),
                   total = length (deviceLists st1 (idUser pn))\<rparr>, st1)"
proof -
  let ?p = "idUser pn" and ?l = "idUser lid"
  let ?devices = "deviceLists st ?p"
  let ?staged = "stagedDevices st now ?p ?devices"
  from first have dir: "idTag pn = PhoneNumber \<and> idTag lid = LongLivedId"
    by (auto simp: migrateSessions_def split: if_splits)
  have after: "deviceLists st1 ?p = ?devices \<and>
               (\<forall>d\<in>set ?devices. sessionRecords st1 (?p, PhoneNumber, d) = None)"
  proof (cases "?devices = []")
    case True
    with first dir have "st1 = st" by (simp add: migrateSessions_def)
    with True show ?thesis by simp
  next
    case False
    with first dir have st1: "st1 = foldl (recordMigration ?p now) (foldl (moveSession ?p ?l) st ?staged) ?staged"
      by (auto simp: migrateSessions_def Let_def split: if_splits)
    have "sessionRecords st1 (?p, PhoneNumber, d) = None" if "d \<in> set ?devices" for d
    proof (cases "d \<in> set ?staged")
      case True
      then show ?thesis
        by (simp add: st1 foldl_recordMigration_fields foldl_moveSession_pn)
    next
      case False
      with that have "ledgerUnexpired st now ?p d \<or> sessionRecords st (?p, PhoneNumber, d) = None"
        by (simp add: stagedDevices_def)
      with consistent that have "sessionRecords st (?p, PhoneNumber, d) = None" by blast
      with False show ?thesis
        by (simp add: st1 foldl_recordMigration_fields foldl_moveSession_pn)
    qed
    then show ?thesis
      by (simp add: st1 foldl_recordMigration_fields foldl_moveSession_fields)
  qed
  then have devs: "deviceLists st1 ?p = ?devices"
    and none: "\<forall>d\<in>set (deviceLists st1 ?p). sessionRecords st1 (?p, PhoneNumber, d) = None"
    by simp_all
  from none have unstaged: "stagedDevices st1 now2 ?p (deviceLists st1 ?p) = []"
    by (rule stagedDevices_empty)
  have second: "migrateSessions st1 False now2 pn lid
                  = Inr (\<lparr>migrated = 0, skipped = length (deviceLists st1 ?p),
                          total = length (deviceLists st1 ?p)\<rparr>, st1)"
    using dir by (simp add: migrateSessions_def Let_def unstaged)
  from none second show ?thesis by simp
qed

theorem migration_is_idempotent_witness:
  "migrated (fst (projr (migrateSessions twoDeviceState False 5000 pnIdentity lidIdentity))) = 2 \<and>
   migrated (fst (projr (migrateSessions
       (snd (projr (migrateSessions twoDeviceState False 5000 pnIdentity lidIdentity)))
       False 6000 pnIdentity lidIdentity))) = 0 \<and>
   sessionRecords (snd (projr (migrateSessions twoDeviceState False 5000 pnIdentity lidIdentity)))
       (''5511900000000'', PhoneNumber, 5) = None \<and>
   sessionRecords (snd (projr (migrateSessions twoDeviceState False 5000 pnIdentity lidIdentity)))
       (''abc123'', LongLivedId, 5) = Some ''record-5''"
proof -
  let ?r = "migrateSessions twoDeviceState False 5000 pnIdentity lidIdentity"
  have ok: "?r = Inr (fst (projr ?r), snd (projr ?r))"
    by (simp add: migrateSessions_def twoDeviceState_def pnIdentity_def lidIdentity_def Let_def)
  have c: "\<forall>d\<in>set (deviceLists twoDeviceState (idUser pnIdentity)).
             ledgerUnexpired twoDeviceState 5000 (idUser pnIdentity) d
             \<longrightarrow> sessionRecords twoDeviceState (idUser pnIdentity, PhoneNumber, d) = None"
    by (simp add: twoDeviceState_def pnIdentity_def ledgerUnexpired_def)
  have m: "migrated (fst (projr ?r)) = 2"
    by (simp add: migrateSessions_def twoDeviceState_def pnIdentity_def lidIdentity_def
          stagedDevices_def ledgerUnexpired_def Let_def)
  have l: "sessionRecords (snd (projr ?r)) (''abc123'', LongLivedId, 5) = Some ''record-5''"
    by (simp add: migrateSessions_def twoDeviceState_def pnIdentity_def lidIdentity_def
          stagedDevices_def ledgerUnexpired_def moveSession_def recordMigration_def Let_def)
  have d5: "5 \<in> set (deviceLists (snd (projr ?r)) (idUser pnIdentity))"
    by (simp add: migrateSessions_def twoDeviceState_def pnIdentity_def lidIdentity_def
          stagedDevices_def ledgerUnexpired_def moveSession_def recordMigration_def Let_def)
  note idem = migration_is_idempotent [OF ok c, of 6000]
  from idem d5 l have "sessionRecords (snd (projr ?r)) (idUser pnIdentity, PhoneNumber, 5) = None"
    by (auto simp: lidIdentity_def)
  then have p: "sessionRecords (snd (projr ?r)) (''5511900000000'', PhoneNumber, 5) = None"
    by (simp add: pnIdentity_def)
  from idem have "migrated (fst (projr (migrateSessions (snd (projr ?r)) False 6000 pnIdentity lidIdentity))) = 0"
    by simp
  with m p l show ?thesis by simp
qed

text \<open>
  Claim C3, as stated, fails: in \<open>staleLedgerState\<close> the call at time 2000 succeeds,
  skips device 0 because of its unexpired ledger entry, and leaves it with session
  records under both keyspaces.
\<close>

theorem stale_ledger_leaves_both_keyspaces:
  "\<not> isl (migrateSessions staleLedgerState False 2000 pnIdentity lidIdentity) \<and>
   migrated (fst (projr (migrateSessions staleLedgerState False 2000 pnIdentity lidIdentity))) = 0 \<and>
   sessionRecords (snd (projr (migrateSessions staleLedgerState False 2000 pnIdentity lidIdentity)))
       (''5511900000000'', PhoneNumber, 0) = Some ''new-record'' \<and>
   sessionRecords (snd (projr (migrateSessions staleLedgerState False 2000 pnIdentity lidIdentity)))
       (''abc123'', LongLivedId, 0) = Some ''migrated-record''"
  by (simp add: migrateSessions_def staleLedgerState_def pnIdentity_def lidIdentity_def
        stagedDevices_def ledgerUnexpired_def ledgerGraceMs_def Let_def)

end
